theory Spec2Isabelle
  imports Main "HOL-Library.Word"
begin

unbundle bit_operations_syntax

section \<open>Buffers, numbers and strings of the host language\<close>

text \<open>
  An \<open>ArrayBuffer\<close> is a list of bytes. Offsets, lengths and the values read from a
  buffer are JavaScript numbers; every one that occurs here is a non-negative integer far
  below \<open>2 ^ 53\<close>, so they are natural numbers and additions do not wrap. A JavaScript
  string is kept as the \<open>string\<close> of its UTF-8 bytes. A thrown exception is a value
  of \<open>exn\<close>; a function of the source that can throw returns \<open>exn + 'a\<close>. The
  message of a RangeError raised by the platform is the text that V8 gives it; nothing
  below depends on it.
\<close>

type_synonym byte = "8 word"

datatype exn = RangeError string | Error string

fun message :: "exn \<Rightarrow> string" where
  "message (RangeError m) = m"
| "message (Error m) = m"

text \<open>Sequencing: an exception thrown by the first computation skips the rest.\<close>

fun bind :: "exn + 'a \<Rightarrow> ('a \<Rightarrow> exn + 'b) \<Rightarrow> exn + 'b" where
  "bind (Inl e) f = Inl e"
| "bind (Inr v) f = f v"

lemma bind_weak_cong: "m = m' \<Longrightarrow> bind m f = bind m' f"
  by simp

lemma bind_eq_Inr: "bind m f = Inr y \<longleftrightarrow> (\<exists>v. m = Inr v \<and> f v = Inr y)"
  by (cases m) auto

lemma bind_eq_Inl: "bind m f = Inl e \<longleftrightarrow> m = Inl e \<or> (\<exists>v. m = Inr v \<and> f v = Inl e)"
  by (cases m) auto

definition outOfBounds :: exn where
  "outOfBounds = RangeError ''Offset is outside the bounds of the DataView''"

text \<open>\<open>DataView.getUint8/16/32\<close>: a read that does not fit in the view throws.\<close>

definition getUint8 :: "byte list \<Rightarrow> nat \<Rightarrow> exn + nat" where
  "getUint8 view off =
     (if off + 1 \<le> length view then Inr (unat (view ! off)) else Inl outOfBounds)"

definition getUint16 :: "byte list \<Rightarrow> nat \<Rightarrow> bool \<Rightarrow> exn + nat" where
  "getUint16 view off littleEndian =
     (if off + 2 \<le> length view then
        (let b0 = unat (view ! off); b1 = unat (view ! (off + 1))
         in Inr (if littleEndian then b0 + 256 * b1 else 256 * b0 + b1))
      else Inl outOfBounds)"

definition getUint32 :: "byte list \<Rightarrow> nat \<Rightarrow> bool \<Rightarrow> exn + nat" where
  "getUint32 view off littleEndian =
     (if off + 4 \<le> length view then
        (let b0 = unat (view ! off); b1 = unat (view ! (off + 1));
             b2 = unat (view ! (off + 2)); b3 = unat (view ! (off + 3))
         in Inr (if littleEndian then b0 + 256 * b1 + 65536 * b2 + 16777216 * b3
                 else 16777216 * b0 + 65536 * b1 + 256 * b2 + b3))
      else Inl outOfBounds)"

text \<open>\<open>ArrayBuffer.slice(begin, end)\<close> clamps both ends to the buffer and never throws.\<close>

definition slice_buffer :: "byte list \<Rightarrow> nat \<Rightarrow> nat \<Rightarrow> byte list" where
  "slice_buffer buf b e = take (e - b) (drop b buf)"

text \<open>\<open>Number.prototype.toString(16)\<close>, \<open>toString(10)\<close> and \<open>String.prototype.padStart\<close>.\<close>

definition digitChar :: "nat \<Rightarrow> char" where
  "digitChar d = ''0123456789abcdef'' ! d"

fun toString16 :: "nat \<Rightarrow> string" where
  "toString16 n = (if n < 16 then [digitChar n] else toString16 (n div 16) @ [digitChar (n mod 16)])"

fun toString10 :: "nat \<Rightarrow> string" where
  "toString10 n = (if n < 10 then [digitChar n] else toString10 (n div 10) @ [digitChar (n mod 10)])"

definition padStart :: "nat \<Rightarrow> char \<Rightarrow> string \<Rightarrow> string" where
  "padStart n c s = replicate (n - length s) c @ s"

text \<open>\<open>bufferToHex\<close>: two lower-case hexadecimal digits per byte, joined by one space.\<close>

fun join :: "string \<Rightarrow> string list \<Rightarrow> string" where
  "join sep [] = []"
| "join sep [s] = s"
| "join sep (s # t # ss) = s @ sep @ join sep (t # ss)"

definition bufferToHex :: "byte list \<Rightarrow> string" where
  "bufferToHex buffer = join '' '' (map (\<lambda>b. padStart 2 CHR ''0'' (toString16 (unat b))) buffer)"

section \<open>The constant tables (constants.ts)\<close>

text \<open>An object literal with numeric keys is an association list, looked up with \<open>map_of\<close>.\<close>

definition COMMAND_ID_MAP :: "(nat \<times> string) list" where
  "COMMAND_ID_MAP =
     [(0x00000001, ''bind_receiver''),
      (0x80000001, ''bind_receiver_resp''),
      (0x00000002, ''deliver_sm''),
      (0x80000002, ''deliver_sm_resp''),
      (0x00000003, ''unbind''),
      (0x80000003, ''unbind_resp''),
      (0x00000004, ''enquire_link''),
      (0x80000004, ''enquire_link_resp'')]"

definition DATA_CODING_MAP :: "(nat \<times> string) list" where
  "DATA_CODING_MAP =
     [(0x00, ''Default (GSM 7-bit)''),
      (0x01, ''IA5 (ASCII)''),
      (0x02, ''8-bit binary''),
      (0x03, ''Latin 1 (ISO-8859-1)''),
      (0x04, ''UTF-8''),
      (0x05, ''JIS''),
      (0x06, ''Cyrillic (ISO-8859-5)''),
      (0x07, ''Latin/Hebrew (ISO-8859-8)''),
      (0x08, ''UCS-2 (ISO/IEC-10646)''),
      (0x09, ''Pictogram Encoding''),
      (0x0A, ''ISO-2022-JP (Music Codes)''),
      (0x0D, ''Extended Kanji JIS''),
      (0x0E, ''KS C 5601'')]"

definition ESM_CLASS_MAP :: "nat \<Rightarrow> string" where
  "ESM_CLASS_MAP v =
     (let messageMode = v AND 0b00000011;
          messageType = v AND 0b00111100;
          modeStr = (if messageMode = 0b00 then ''Default Mode''
                     else if messageMode = 0b11 then ''Store and Forward''
                     else ''Unknown Mode'');
          typeStr = (if messageType = 0b00000000 then ''Default Message''
                     else if messageType = 0b00000100 then ''Delivery Receipt''
                     else if messageType = 0b00001000 then ''Delivery Acknowledgement''
                     else if messageType = 0b01000000 then ''Manual/User Acknowledgement''
                     else if messageType = 0b01100000 then ''Conversation Abort (Korean CDMA)''
                     else if messageType = 0b10000000 then ''Intermediate Delivery Notification''
                     else ''Unknown Type'')
      in typeStr @ '', '' @ modeStr)"

section \<open>The platform's text decoders\<close>

text \<open>
  \<open>TextDecoder\<close> is not code of the repository. The functions of the source that decode
  text take the platform's decoder as a parameter \<open>td\<close>, which may return a string or
  throw. \<open>TextDecoder_decode\<close> below is the decoder of the Encoding Standard that browsers
  implement (replacement character on malformed input, a leading byte order mark dropped,
  the labels \<open>iso-8859-1\<close> and \<open>ascii\<close> both naming windows-1252); it instantiates
  \<open>td\<close> wherever a concrete run is evaluated.
\<close>

datatype encoding = UTF16BE | ISO_8859_1 | UTF8 | ASCII

type_synonym textDecoder = "encoding \<Rightarrow> byte list \<Rightarrow> exn + string"

definition utf8_encode :: "nat \<Rightarrow> string" where
  "utf8_encode cp =
     (if cp < 0x80 then [char_of cp]
      else if cp < 0x800 then [char_of (0xC0 + cp div 64), char_of (0x80 + cp mod 64)]
      else if cp < 0x10000 then
        [char_of (0xE0 + cp div 4096), char_of (0x80 + cp div 64 mod 64), char_of (0x80 + cp mod 64)]
      else
        [char_of (0xF0 + cp div 262144), char_of (0x80 + cp div 4096 mod 64),
         char_of (0x80 + cp div 64 mod 64), char_of (0x80 + cp mod 64)])"

type_synonym utf8_state = "nat \<times> nat \<times> nat \<times> nat \<times> nat"

definition utf8_init :: utf8_state where
  "utf8_init = (0, 0, 0, 0x80, 0xBF)"

definition utf8_lead :: "nat \<Rightarrow> nat list \<times> utf8_state" where
  "utf8_lead b =
     (if b \<le> 0x7F then ([b], utf8_init)
      else if 0xC2 \<le> b \<and> b \<le> 0xDF then ([], (b AND 0x1F, 1, 0, 0x80, 0xBF))
      else if 0xE0 \<le> b \<and> b \<le> 0xEF then
        ([], (b AND 0xF, 2, 0, if b = 0xE0 then 0xA0 else 0x80, if b = 0xED then 0x9F else 0xBF))
      else if 0xF0 \<le> b \<and> b \<le> 0xF4 then
        ([], (b AND 0x7, 3, 0, if b = 0xF0 then 0x90 else 0x80, if b = 0xF4 then 0x8F else 0xBF))
      else ([0xFFFD], utf8_init))"

fun utf8_decode :: "utf8_state \<Rightarrow> nat list \<Rightarrow> nat list" where
  "utf8_decode (cp, needed, seen, lo, hi) [] = (if needed \<noteq> 0 then [0xFFFD] else [])"
| "utf8_decode (cp, needed, seen, lo, hi) (b # bs) =
     (if needed = 0 then
        (case utf8_lead b of (out, st) \<Rightarrow> out @ utf8_decode st bs)
      else if b < lo \<or> hi < b then
        (case utf8_lead b of (out, st) \<Rightarrow> 0xFFFD # out @ utf8_decode st bs)
      else
        (let cp' = cp * 64 + (b AND 0x3F)
         in if seen + 1 \<noteq> needed then utf8_decode (cp', needed, seen + 1, 0x80, 0xBF) bs
            else cp' # utf8_decode utf8_init bs))"

fun utf16be_decode :: "nat option \<Rightarrow> nat list \<Rightarrow> nat list" where
  "utf16be_decode lead [] = (if lead \<noteq> None then [0xFFFD] else [])"
| "utf16be_decode lead [b] = [0xFFFD]"
| "utf16be_decode lead (b1 # b2 # bs) =
     (let cu = b1 * 256 + b2 in
      case lead of
        Some l \<Rightarrow>
          if 0xDC00 \<le> cu \<and> cu \<le> 0xDFFF then
            (0x10000 + (l - 0xD800) * 1024 + (cu - 0xDC00)) # utf16be_decode None bs
          else if 0xD800 \<le> cu \<and> cu \<le> 0xDBFF then 0xFFFD # utf16be_decode (Some cu) bs
          else 0xFFFD # cu # utf16be_decode None bs
      | None \<Rightarrow>
          if 0xD800 \<le> cu \<and> cu \<le> 0xDBFF then utf16be_decode (Some cu) bs
          else if 0xDC00 \<le> cu \<and> cu \<le> 0xDFFF then 0xFFFD # utf16be_decode None bs
          else cu # utf16be_decode None bs)"

definition windows1252 :: "nat \<Rightarrow> nat" where
  "windows1252 b =
     (if 0x80 \<le> b \<and> b \<le> 0x9F then
        [0x20AC, 0x0081, 0x201A, 0x0192, 0x201E, 0x2026, 0x2020, 0x2021,
         0x02C6, 0x2030, 0x0160, 0x2039, 0x0152, 0x008D, 0x017D, 0x008F,
         0x0090, 0x2018, 0x2019, 0x201C, 0x201D, 0x2022, 0x2013, 0x2014,
         0x02DC, 0x2122, 0x0161, 0x203A, 0x0153, 0x009D, 0x017E, 0x0178] ! (b - 0x80)
      else b)"

definition dropBOM :: "nat list \<Rightarrow> nat list" where
  "dropBOM cps = (case cps of [] \<Rightarrow> [] | c # cs \<Rightarrow> if c = 0xFEFF then cs else c # cs)"

definition TextDecoder_decode :: textDecoder where
  "TextDecoder_decode enc bytes =
     (let bs = map unat bytes
      in Inr (concat (map utf8_encode
           (case enc of
              UTF8 \<Rightarrow> dropBOM (utf8_decode utf8_init bs)
            | UTF16BE \<Rightarrow> dropBOM (utf16be_decode None bs)
            | ISO_8859_1 \<Rightarrow> map windows1252 bs
            | ASCII \<Rightarrow> map windows1252 bs))))"

section \<open>Decoding helpers\<close>

definition decodeMessage :: "textDecoder \<Rightarrow> byte list \<Rightarrow> nat \<Rightarrow> string" where
  "decodeMessage td messageBuffer dataCoding =
     (let scheme = (case map_of DATA_CODING_MAP dataCoding of
                      Some s \<Rightarrow> s
                    | None \<Rightarrow> ''Unknown (0x'' @ toString16 dataCoding @ '')'');
          content =
            (case (if dataCoding = 0x08 then td UTF16BE messageBuffer
                   else if dataCoding = 0x03 then td ISO_8859_1 messageBuffer
                   else if dataCoding = 0x04 then td UTF8 messageBuffer
                   else if dataCoding = 0x00 then
                     Inr (''[GSM 7-bit encoded data: '' @ bufferToHex messageBuffer @ '']'')
                   else Inr (''[Binary Data: '' @ bufferToHex messageBuffer @ '']''))
             of Inr c \<Rightarrow> c
              | Inl e \<Rightarrow> ''[Error decoding: '' @ message e @ '']'')
      in ''('' @ scheme @ '') '' @ content)"

section \<open>SMPP PDU parsing\<close>

subsection \<open>BufferReader\<close>

record BufferReader =
  view :: "byte list"
  offset :: nat

text \<open>
  \<open>new Uint8Array(buffer, byteOffset, length)\<close> throws a RangeError when the window does
  not fit in the buffer.
\<close>

definition newUint8Array :: "byte list \<Rightarrow> nat \<Rightarrow> nat \<Rightarrow> exn + byte list" where
  "newUint8Array buf byteOffset len =
     (if byteOffset + len \<le> length buf then Inr (take len (drop byteOffset buf))
      else Inl (RangeError ''Invalid typed array length''))"

definition bytesRemaining :: "BufferReader \<Rightarrow> int" where
  "bytesRemaining r = int (length (view r)) - int (offset r)"

definition peekUint32 :: "BufferReader \<Rightarrow> nat \<Rightarrow> exn + nat option" where
  "peekUint32 r off =
     (if off + 4 > length (view r) then Inr None
      else bind (getUint32 (view r) off False) (\<lambda>v. Inr (Some v)))"

definition readUint32 :: "BufferReader \<Rightarrow> exn + nat \<times> BufferReader" where
  "readUint32 r =
     bind (getUint32 (view r) (offset r) False) (\<lambda>v. Inr (v, r\<lparr>offset := offset r + 4\<rparr>))"

definition readUint8 :: "BufferReader \<Rightarrow> exn + nat \<times> BufferReader" where
  "readUint8 r =
     bind (getUint8 (view r) (offset r)) (\<lambda>v. Inr (v, r\<lparr>offset := offset r + 1\<rparr>))"

text \<open>The loop of \<open>readCString\<close>: the offset of the terminator, or of the end of the view.\<close>

function cstringEnd :: "byte list \<Rightarrow> nat \<Rightarrow> nat" where
  "cstringEnd buf off =
     (if off < length buf \<and> buf ! off \<noteq> 0 then cstringEnd buf (off + 1) else off)"
  by pat_completeness auto
termination
  by (relation "measure (\<lambda>(buf, off). length buf - off)") auto

definition readCString :: "textDecoder \<Rightarrow> BufferReader \<Rightarrow> exn + string \<times> BufferReader" where
  "readCString td r =
     (let start = offset r;
          stop = cstringEnd (view r) start
      in bind (newUint8Array (view r) start (stop - start)) (\<lambda>bytes.
         bind (td ASCII bytes) (\<lambda>str.
         Inr (str, r\<lparr>offset := (if stop < length (view r) then stop + 1 else stop)\<rparr>))))"

text \<open>
  The offset at which \<open>readCString\<close> leaves a reader that stood at \<open>off\<close>, and the
  offset of the \<open>esm_class\<close> byte of a deliver_sm body that starts at \<open>off\<close>: behind
  the service type, two bytes, the source address, two bytes and the destination address.
\<close>

definition afterCString :: "byte list \<Rightarrow> nat \<Rightarrow> nat" where
  "afterCString buf off =
     (let stop = cstringEnd buf off in if stop < length buf then stop + 1 else stop)"

definition esmClassOffset :: "byte list \<Rightarrow> nat \<Rightarrow> nat" where
  "esmClassOffset buf off =
     afterCString buf (afterCString buf (afterCString buf off + 2) + 2)"

definition readBytes :: "BufferReader \<Rightarrow> nat \<Rightarrow> exn + byte list \<times> BufferReader" where
  "readBytes r len =
     bind (newUint8Array (view r) (offset r) len) (\<lambda>v. Inr (v, r\<lparr>offset := offset r + len\<rparr>))"

text \<open>The field \<open>tag\<close> of an \<open>SmppTlv\<close> has the union type \<open>number | string\<close>.\<close>

datatype tagValue = TagNumber nat | TagString string

record SmppTlv =
  tag :: tagValue
  length_tlv :: nat
  value_tlv :: string

definition readTlv :: "BufferReader \<Rightarrow> exn + SmppTlv option \<times> BufferReader" where
  "readTlv r =
     (if bytesRemaining r < 4 then Inr (None, r)
      else
        bind (getUint16 (view r) (offset r) False) (\<lambda>t.
        bind (getUint16 (view r) (offset r + 2) False) (\<lambda>len.
        if int len > bytesRemaining r - 4 then Inr (None, r)
        else
          bind (readBytes (r\<lparr>offset := offset r + 4\<rparr>) len) (\<lambda>(v, r').
          Inr (Some \<lparr>tag = TagNumber t, length_tlv = len, value_tlv = bufferToHex v\<rparr>, r')))))"

subsection \<open>The deliver_sm body\<close>

text \<open>
  \<open>String.prototype.split\<close> on a one-character separator, \<open>parseInt(s, 16)\<close> (\<open>None\<close>
  is NaN; its argument here is always a piece of a \<open>bufferToHex\<close> string, so only the
  digits are parsed), and the conversion of a number to an element of a \<open>Uint8Array\<close>
  (NaN becomes 0, a number is taken modulo 256).
\<close>

fun split :: "char \<Rightarrow> string \<Rightarrow> string list" where
  "split sep [] = [[]]"
| "split sep (c # cs) =
     (if c = sep then [] # split sep cs
      else (case split sep cs of [] \<Rightarrow> [[c]] | w # ws \<Rightarrow> (c # w) # ws))"

definition hexDigitValue :: "char \<Rightarrow> nat option" where
  "hexDigitValue c =
     (let n = (of_char c :: nat) in
      if 48 \<le> n \<and> n \<le> 57 then Some (n - 48)
      else if 97 \<le> n \<and> n \<le> 102 then Some (n - 87)
      else if 65 \<le> n \<and> n \<le> 70 then Some (n - 55)
      else None)"

definition parseInt16 :: "string \<Rightarrow> nat option" where
  "parseInt16 s =
     (let ds = takeWhile (\<lambda>c. hexDigitValue c \<noteq> None) s
      in if ds = [] then None
         else Some (foldl (\<lambda>a c. 16 * a + the (hexDigitValue c)) 0 ds))"

definition toUint8 :: "nat option \<Rightarrow> byte" where
  "toUint8 x = (case x of None \<Rightarrow> 0 | Some n \<Rightarrow> of_nat n)"

definition hexToBytes :: "string \<Rightarrow> byte list" where
  "hexToBytes v = map (\<lambda>s. toUint8 (parseInt16 s)) (split CHR '' '' v)"

lemma readTlv_advances:
  assumes "readTlv r = Inr (Some tlv, r')"
  shows "view r' = view r \<and> offset r < offset r' \<and> offset r' \<le> length (view r)"
  using assms
  by (auto simp: readTlv_def readBytes_def newUint8Array_def bind_eq_Inr getUint16_def
        bytesRemaining_def Let_def split: if_splits)

text \<open>The \<open>while (reader.bytesRemaining() > 0)\<close> loop of \<open>parseDeliverSmBody\<close>.\<close>

function readTlvs ::
  "BufferReader \<Rightarrow> SmppTlv list \<Rightarrow> byte list option \<Rightarrow> exn + SmppTlv list \<times> byte list option"
where
  "readTlvs r tlvs message_content =
     (if bytesRemaining r > 0 then
        (case readTlv r of
           Inl e \<Rightarrow> Inl e
         | Inr (None, r') \<Rightarrow> Inr (tlvs, message_content)
         | Inr (Some tlv, r') \<Rightarrow>
             readTlvs r' (tlvs @ [tlv])
               (if tag tlv = TagNumber 0x0424 then Some (hexToBytes (value_tlv tlv))
                else message_content))
      else Inr (tlvs, message_content))"
  by pat_completeness auto
termination
proof (relation "measure (\<lambda>(r, tlvs, mc). length (view r) - offset r)", goal_cases)
  case 1
  show ?case by simp
next
  case (2 r tlvs message_content x2 x1 r' tlv)
  then have "readTlv r = Inr (Some tlv, r')" by simp
  from readTlv_advances [OF this]
  have "length (view r') - offset r' < length (view r) - offset r" by auto
  then show ?case by simp
qed

record DeliverSmBody =
  service_type :: string
  source_addr_ton :: nat
  source_addr_npi :: nat
  source_address :: string
  dest_addr_ton :: nat
  dest_addr_npi :: nat
  dest_address :: string
  esm_class :: string
  protocol_id :: nat
  priority_flag :: nat
  replace_if_present_flag :: nat
  data_coding :: nat
  sm_default_msg_id :: nat
  sm_length :: nat
  short_message :: "string option"
  tlvs :: "SmppTlv list option"
  decoded_message :: string

definition tagToString16 :: "tagValue \<Rightarrow> string" where
  "tagToString16 t = (case t of TagNumber n \<Rightarrow> toString16 n | TagString s \<Rightarrow> s)"

definition parseDeliverSmBody ::
  "textDecoder \<Rightarrow> BufferReader \<Rightarrow> nat \<Rightarrow> exn + DeliverSmBody"
where
  "parseDeliverSmBody td reader smppLength =
     bind (readCString td reader) (\<lambda>(service_type', r).
     bind (readUint8 r) (\<lambda>(source_addr_ton', r).
     bind (readUint8 r) (\<lambda>(source_addr_npi', r).
     bind (readCString td r) (\<lambda>(source_address', r).
     bind (readUint8 r) (\<lambda>(dest_addr_ton', r).
     bind (readUint8 r) (\<lambda>(dest_addr_npi', r).
     bind (readCString td r) (\<lambda>(dest_address', r).
     bind (readUint8 r) (\<lambda>(esmClass, r).
     bind (readUint8 r) (\<lambda>(protocol_id', r).
     bind (readUint8 r) (\<lambda>(priority_flag', r).
     bind (readUint8 r) (\<lambda>(replace_if_present_flag', r).
     bind (readUint8 r) (\<lambda>(data_coding', r).
     bind (readUint8 r) (\<lambda>(sm_default_msg_id', r).
     bind (readUint8 r) (\<lambda>(sm_length', r).
     bind (if sm_length' > 0 \<and> int sm_length' \<le> bytesRemaining r
           then bind (readBytes r sm_length') (\<lambda>(m, r). Inr (Some m, r))
           else Inr (None, r)) (\<lambda>(short, r).
     bind (readTlvs r [] short) (\<lambda>(tlvs', message_content).
     Inr \<lparr>service_type = service_type',
          source_addr_ton = source_addr_ton',
          source_addr_npi = source_addr_npi',
          source_address = source_address',
          dest_addr_ton = dest_addr_ton',
          dest_addr_npi = dest_addr_npi',
          dest_address = dest_address',
          esm_class = ESM_CLASS_MAP esmClass @ '' (0x'' @
                        padStart 2 CHR ''0'' (toString16 esmClass) @ '')'',
          protocol_id = protocol_id',
          priority_flag = priority_flag',
          replace_if_present_flag = replace_if_present_flag',
          data_coding = data_coding',
          sm_default_msg_id = sm_default_msg_id',
          sm_length = sm_length',
          short_message = map_option bufferToHex short,
          tlvs = (if length tlvs' > 0
                  then Some (map (\<lambda>t. \<lparr>tag = TagString (''0x'' @ padStart 4 CHR ''0''
                                                           (tagToString16 (tag t))),
                                        length_tlv = length_tlv t,
                                        value_tlv = value_tlv t\<rparr>) tlvs')
                  else None),
          decoded_message = (case message_content of
                               Some m \<Rightarrow> decodeMessage td m data_coding'
                             | None \<Rightarrow> ''(No message content)'')\<rparr>))))))))))))))))"

subsection \<open>One PDU\<close>

record SmppHeader =
  command_length :: nat
  command_id :: nat
  command_name :: string
  command_status :: nat
  sequence_no :: nat

datatype Body =
  DeliverSm DeliverSmBody
| Unsupported (unsupported_command: string) (raw_body: string)

record ParsedSmppData =
  header :: SmppHeader
  body :: Body

text \<open>
  The warning that \<open>parseSmppPdu\<close> logs when \<open>command_length\<close> differs from the size
  of the buffer changes nothing in the result and is left out.
\<close>

definition parseSmppPdu :: "textDecoder \<Rightarrow> byte list \<Rightarrow> exn + ParsedSmppData" where
  "parseSmppPdu td pduBuffer =
     bind (readUint32 \<lparr>view = pduBuffer, offset = 0\<rparr>) (\<lambda>(command_length', r).
     bind (readUint32 r) (\<lambda>(command_id', r).
     bind (readUint32 r) (\<lambda>(command_status', r).
     bind (readUint32 r) (\<lambda>(sequence_no', r).
     let commandName = (case map_of COMMAND_ID_MAP command_id' of
                          Some n \<Rightarrow> n
                        | None \<Rightarrow> ''Unknown Command'')
     in
     bind (if commandName = ''deliver_sm'' then
             bind (parseDeliverSmBody td r command_length') (\<lambda>b. Inr (DeliverSm b))
           else
             (let remainingBytes = bytesRemaining r in
              bind (if remainingBytes > 0
                    then bind (readBytes r (nat remainingBytes)) (\<lambda>(v, r). Inr (bufferToHex v))
                    else Inr ''No body'') (\<lambda>raw.
              Inr (Unsupported
                     (''Parser for '' @ commandName @ '' (0x'' @ toString16 command_id' @
                      '') is not implemented.'')
                     raw)))) (\<lambda>body'.
     Inr \<lparr>header = \<lparr>command_length = command_length',
                     command_id = command_id',
                     command_name = commandName,
                     command_status = command_status',
                     sequence_no = sequence_no'\<rparr>,
          body = body'\<rparr>)))))"

subsection \<open>Scanning a TCP payload for PDUs\<close>

definition knownCommandIds :: "nat list" where
  "knownCommandIds = map fst COMMAND_ID_MAP"

text \<open>
  One iteration of the \<open>while\<close> loop of \<open>parseMultipleSmppPdus\<close>, entered with at least
  16 bytes left: the PDU pushed onto \<open>allPdus\<close>, if any, and the next offset.
\<close>

definition scanStep :: "textDecoder \<Rightarrow> byte list \<Rightarrow> nat \<Rightarrow> exn + ParsedSmppData option \<times> nat" where
  "scanStep td tcpPayload off =
     bind (getUint32 tcpPayload (off + 4) False) (\<lambda>commandId.
     if commandId \<in> set knownCommandIds then
       bind (getUint32 tcpPayload off False) (\<lambda>commandLength.
       if commandLength \<ge> 16 \<and> off + commandLength \<le> length tcpPayload then
         (case parseSmppPdu td (slice_buffer tcpPayload off (off + commandLength)) of
            Inr parsedPdu \<Rightarrow> Inr (Some parsedPdu, off + commandLength)
          | Inl e \<Rightarrow> Inr (None, off + 1))
       else Inr (None, off + 1))
     else Inr (None, off + 1))"

lemma scanStep_advances:
  assumes "scanStep td tcpPayload off = Inr (p, off')"
  shows "off < off'"
proof (cases "parseSmppPdu td (slice_buffer tcpPayload off
    (off + (case getUint32 tcpPayload off False of Inr n \<Rightarrow> n | Inl e \<Rightarrow> 0)))")
  case (Inl e)
  with assms show ?thesis
    by (auto simp: scanStep_def bind_eq_Inr split: if_splits)
next
  case (Inr x)
  with assms show ?thesis
    by (auto simp: scanStep_def bind_eq_Inr split: if_splits)
qed

function scanLoop ::
  "textDecoder \<Rightarrow> byte list \<Rightarrow> nat \<Rightarrow> ParsedSmppData list \<Rightarrow> exn + ParsedSmppData list"
where
  "scanLoop td tcpPayload off allPdus =
     (if off + 16 \<le> length tcpPayload then
        (case scanStep td tcpPayload off of
           Inl e \<Rightarrow> Inl e
         | Inr (None, off') \<Rightarrow> scanLoop td tcpPayload off' allPdus
         | Inr (Some parsedPdu, off') \<Rightarrow> scanLoop td tcpPayload off' (allPdus @ [parsedPdu]))
      else Inr allPdus)"
  by pat_completeness auto
termination
proof (relation "measure (\<lambda>(td, tcpPayload, off, allPdus). length tcpPayload - off)", goal_cases)
  case 1
  show ?case by simp
next
  case (2 td tcpPayload off allPdus x2 x1 off')
  then have "scanStep td tcpPayload off = Inr (None, off')" by simp
  from scanStep_advances [OF this] 2(1) show ?case by auto
next
  case (3 td tcpPayload off allPdus x2 x1 off' parsedPdu)
  then have "scanStep td tcpPayload off = Inr (Some parsedPdu, off')" by simp
  from scanStep_advances [OF this] 3(1) show ?case by auto
qed

definition parseMultipleSmppPdus :: "textDecoder \<Rightarrow> byte list \<Rightarrow> exn + ParsedSmppData list" where
  "parseMultipleSmppPdus td tcpPayload = scanLoop td tcpPayload 0 []"

section \<open>PCAP parsing\<close>

record PacketSummary =
  index :: nat
  sourceIp :: string
  destIp :: string
  sourcePort :: nat
  destPort :: nat
  length_pkt :: nat
  info :: string
  payload :: "byte list"

definition dotted :: "nat \<Rightarrow> nat \<Rightarrow> nat \<Rightarrow> nat \<Rightarrow> string" where
  "dotted a b c d =
     toString10 a @ ''.'' @ toString10 b @ ''.'' @ toString10 c @ ''.'' @ toString10 d"

text \<open>
  The part of the loop body of \<open>extractAllTcpPayloads\<close> that works on one record, whose
  bytes start at \<open>packetStart\<close> and whose declared length is \<open>incl_len\<close> (from the comment
  "Simplified: Assuming Ethernet II -> IPv4 -> TCP" to the \<open>packets.push\<close>): \<open>None\<close> when
  the record is skipped, the summary pushed otherwise.
\<close>

definition stripFrame :: "byte list \<Rightarrow> nat \<Rightarrow> nat \<Rightarrow> nat \<Rightarrow> exn + PacketSummary option" where
  "stripFrame buf packetStart incl_len packetIndex =
     (let ipHeaderOffset = packetStart + 14 in
      if ipHeaderOffset \<ge> packetStart + incl_len then Inr None
      else
        bind (getUint16 buf (packetStart + 12) False) (\<lambda>etherType.
        if etherType \<noteq> 0x0800 then Inr None
        else
          bind (getUint8 buf ipHeaderOffset) (\<lambda>b0.
          let ipHeaderLength = (b0 AND 0x0F) * 4 in
          bind (getUint8 buf (ipHeaderOffset + 9)) (\<lambda>ipProtocol.
          if ipProtocol \<noteq> 6 then Inr None
          else
            bind (getUint8 buf (ipHeaderOffset + 12)) (\<lambda>s0.
            bind (getUint8 buf (ipHeaderOffset + 13)) (\<lambda>s1.
            bind (getUint8 buf (ipHeaderOffset + 14)) (\<lambda>s2.
            bind (getUint8 buf (ipHeaderOffset + 15)) (\<lambda>s3.
            bind (getUint8 buf (ipHeaderOffset + 16)) (\<lambda>d0.
            bind (getUint8 buf (ipHeaderOffset + 17)) (\<lambda>d1.
            bind (getUint8 buf (ipHeaderOffset + 18)) (\<lambda>d2.
            bind (getUint8 buf (ipHeaderOffset + 19)) (\<lambda>d3.
            let tcpHeaderOffset = ipHeaderOffset + ipHeaderLength in
            bind (getUint16 buf tcpHeaderOffset False) (\<lambda>sourcePort'.
            bind (getUint16 buf (tcpHeaderOffset + 2) False) (\<lambda>destPort'.
            bind (getUint8 buf (tcpHeaderOffset + 12)) (\<lambda>dataOffsetByte.
            let tcpHeaderLength = drop_bit 4 (dataOffsetByte AND 0xF0) * 4;
                payloadOffset = tcpHeaderOffset + tcpHeaderLength;
                totalHeaderLength = payloadOffset - packetStart;
                payloadLength = int incl_len - int totalHeaderLength
            in
            if payloadLength > 16 then
              (let payload' = slice_buffer buf payloadOffset (payloadOffset + nat payloadLength);
                   payloadReader = \<lparr>view = payload', offset = 0\<rparr>
               in
               bind (peekUint32 payloadReader 0) (\<lambda>cmdLen.
               bind (peekUint32 payloadReader 4) (\<lambda>cmdId.
               let info' =
                     (case (cmdId, cmdLen) of
                        (Some cid, Some clen) \<Rightarrow>
                          if clen \<ge> 16 \<and> clen \<le> length payload' then
                            (case map_of COMMAND_ID_MAP cid of
                               Some n \<Rightarrow> n
                             | None \<Rightarrow> ''Unknown Command (0x'' @ toString16 cid @ '')'') @
                            (if clen < length payload' then '' (Multiple)'' else [])
                          else ''SMPP Data''
                      | _ \<Rightarrow> ''SMPP Data'')
               in
               Inr (Some \<lparr>index = packetIndex + 1,
                          sourceIp = dotted s0 s1 s2 s3,
                          destIp = dotted d0 d1 d2 d3,
                          sourcePort = sourcePort',
                          destPort = destPort',
                          length_pkt = nat payloadLength,
                          info = info',
                          payload = payload'\<rparr>))))
            else Inr None)))))))))))))))"

text \<open>
  The \<open>while (offset < view.byteLength)\<close> loop of \<open>extractAllTcpPayloads\<close>. Every path
  through its body that does not leave the loop ends in \<open>offset += 16 + incl_len\<close>.
\<close>

function extractLoop ::
  "byte list \<Rightarrow> bool \<Rightarrow> nat \<Rightarrow> nat \<Rightarrow> PacketSummary list \<Rightarrow> exn + PacketSummary list"
where
  "extractLoop buf littleEndian off packetIndex packets =
     (if off < length buf then
        (if length buf < off + 16 then Inr packets
         else
           (case getUint32 buf (off + 8) littleEndian of
              Inl e \<Rightarrow> Inl e
            | Inr incl_len \<Rightarrow>
                (let packetStart = off + 16 in
                 if packetStart + incl_len > length buf then Inr packets
                 else
                   (case stripFrame buf packetStart incl_len packetIndex of
                      Inl e \<Rightarrow> Inl e
                    | Inr None \<Rightarrow>
                        extractLoop buf littleEndian (off + (16 + incl_len)) packetIndex packets
                    | Inr (Some p) \<Rightarrow>
                        extractLoop buf littleEndian (off + (16 + incl_len)) (packetIndex + 1)
                          (packets @ [p])))))
      else Inr packets)"
  by pat_completeness auto
termination
  by (relation "measure (\<lambda>(buf, littleEndian, off, packetIndex, packets). length buf - off)") auto

definition extractAllTcpPayloads :: "byte list \<Rightarrow> exn + PacketSummary list" where
  "extractAllTcpPayloads pcapBuffer =
     (if length pcapBuffer < 24 then
        Inl (Error ''Invalid PCAP file: too short for global header.'')
      else
        bind (getUint32 pcapBuffer 0 False) (\<lambda>magic_number.
        if magic_number = 0xa1b2c3d4 then extractLoop pcapBuffer False 24 0 []
        else if magic_number = 0xd4c3b2a1 then extractLoop pcapBuffer True 24 0 []
        else Inl (Error (''Unsupported or invalid PCAP file: magic number is incorrect (was 0x'' @
                         toString16 magic_number @ '').''))))"

text \<open>
  The two entry points as \<open>App.tsx\<close> puts them together: \<open>parsePcapFile\<close> lists the
  packets, and \<open>parseMultipleSmppPdus\<close> decodes the payload of a listed packet.
  \<open>decodeCapture\<close> decodes every listed packet, in the order of the list.
\<close>

fun decodePackets :: "textDecoder \<Rightarrow> PacketSummary list \<Rightarrow> exn + ParsedSmppData list" where
  "decodePackets td [] = Inr []"
| "decodePackets td (p # ps) =
     bind (parseMultipleSmppPdus td (payload p)) (\<lambda>pdus.
     bind (decodePackets td ps) (\<lambda>rest. Inr (pdus @ rest)))"

definition decodeCapture :: "textDecoder \<Rightarrow> byte list \<Rightarrow> exn + ParsedSmppData list" where
  "decodeCapture td pcapBuffer = bind (extractAllTcpPayloads pcapBuffer) (decodePackets td)"

section \<open>What the claims about the scanner call a valid PDU\<close>

text \<open>
  A payload piece is a valid PDU when it holds at least a header, its command length is
  its own size, its command id is a known one and \<open>parseSmppPdu\<close> decodes it. The
  heuristics of the scanner match at an offset when the command id read at offset + 4 is
  known and the command length read at the offset is at least 16 and fits in the buffer.
  A parsed PDU carries the header of a piece when its header fields are the four words at
  the start of the piece.
\<close>

definition validPdu :: "textDecoder \<Rightarrow> byte list \<Rightarrow> ParsedSmppData \<Rightarrow> bool" where
  "validPdu td pdu parsed \<longleftrightarrow>
     16 \<le> length pdu \<and>
     getUint32 pdu 0 False = Inr (length pdu) \<and>
     (case getUint32 pdu 4 False of
        Inr commandId \<Rightarrow> commandId \<in> set knownCommandIds
      | Inl e \<Rightarrow> False) \<and>
     parseSmppPdu td pdu = Inr parsed"

definition heuristicsMatch :: "byte list \<Rightarrow> nat \<Rightarrow> bool" where
  "heuristicsMatch buf off \<longleftrightarrow>
     (case getUint32 buf (off + 4) False of
        Inl e \<Rightarrow> False
      | Inr commandId \<Rightarrow>
          commandId \<in> set knownCommandIds \<and>
          (case getUint32 buf off False of
             Inl e \<Rightarrow> False
           | Inr commandLength \<Rightarrow> 16 \<le> commandLength \<and> off + commandLength \<le> length buf))"

definition carriesHeaderOf :: "ParsedSmppData \<Rightarrow> byte list \<Rightarrow> bool" where
  "carriesHeaderOf parsed pdu \<longleftrightarrow>
     command_length (header parsed) = length pdu \<and>
     getUint32 pdu 4 False = Inr (command_id (header parsed)) \<and>
     getUint32 pdu 8 False = Inr (command_status (header parsed)) \<and>
     getUint32 pdu 12 False = Inr (sequence_no (header parsed))"

section \<open>Running the model on a concrete buffer\<close>

text \<open>
  The loops unfold one iteration at a time, and only once their guard is decided; with the
  congruence rules \<open>bind_weak_cong\<close> and \<open>let_weak_cong\<close> the simplifier then evaluates
  a run in the order in which the program executes it.
\<close>

lemma cstringEnd_step:
  "off < length buf \<and> buf ! off \<noteq> 0 \<Longrightarrow> cstringEnd buf off = cstringEnd buf (off + 1)"
  by (subst cstringEnd.simps) simp

lemma cstringEnd_stop:
  "\<not> (off < length buf \<and> buf ! off \<noteq> 0) \<Longrightarrow> cstringEnd buf off = off"
  by (subst cstringEnd.simps) simp

lemma toString16_small: "n < 16 \<Longrightarrow> toString16 n = [digitChar n]"
  by simp

lemma toString16_big:
  "\<not> n < 16 \<Longrightarrow> toString16 n = toString16 (n div 16) @ [digitChar (n mod 16)]"
  by simp

lemma toString10_small: "n < 10 \<Longrightarrow> toString10 n = [digitChar n]"
  by simp

lemma toString10_big:
  "\<not> n < 10 \<Longrightarrow> toString10 n = toString10 (n div 10) @ [digitChar (n mod 10)]"
  by simp

declare toString16.simps [simp del] toString10.simps [simp del]

lemma readTlvs_more:
  "bytesRemaining r > 0 \<Longrightarrow>
   readTlvs r ts mc =
        (case readTlv r of
           Inl e \<Rightarrow> Inl e
         | Inr (None, r') \<Rightarrow> Inr (ts, mc)
         | Inr (Some tlv, r') \<Rightarrow>
             readTlvs r' (ts @ [tlv])
               (if tag tlv = TagNumber 0x0424 then Some (hexToBytes (value_tlv tlv))
                else mc))"
  by (subst readTlvs.simps) simp

lemma readTlvs_done: "\<not> bytesRemaining r > 0 \<Longrightarrow> readTlvs r ts mc = Inr (ts, mc)"
  by (subst readTlvs.simps) simp

lemma scanLoop_more:
  "off + 16 \<le> length tcpPayload \<Longrightarrow>
   scanLoop td tcpPayload off allPdus =
        (case scanStep td tcpPayload off of
           Inl e \<Rightarrow> Inl e
         | Inr (None, off') \<Rightarrow> scanLoop td tcpPayload off' allPdus
         | Inr (Some parsedPdu, off') \<Rightarrow> scanLoop td tcpPayload off' (allPdus @ [parsedPdu]))"
  by (subst scanLoop.simps) simp

lemma scanLoop_done:
  "\<not> off + 16 \<le> length tcpPayload \<Longrightarrow> scanLoop td tcpPayload off allPdus = Inr allPdus"
  by (subst scanLoop.simps) simp

lemma extractLoop_end:
  "\<not> off < length buf \<Longrightarrow> extractLoop buf le off packetIndex packets = Inr packets"
  by (subst extractLoop.simps) simp

lemma extractLoop_short:
  "length buf < off + 16 \<Longrightarrow> extractLoop buf le off packetIndex packets = Inr packets"
  by (subst extractLoop.simps) simp

lemma extractLoop_more:
  "off + 16 \<le> length buf \<Longrightarrow>
   extractLoop buf le off packetIndex packets =
           (case getUint32 buf (off + 8) le of
              Inl e \<Rightarrow> Inl e
            | Inr incl_len \<Rightarrow>
                (let packetStart = off + 16 in
                 if packetStart + incl_len > length buf then Inr packets
                 else
                   (case stripFrame buf packetStart incl_len packetIndex of
                      Inl e \<Rightarrow> Inl e
                    | Inr None \<Rightarrow>
                        extractLoop buf le (off + (16 + incl_len)) packetIndex packets
                    | Inr (Some p) \<Rightarrow>
                        extractLoop buf le (off + (16 + incl_len)) (packetIndex + 1)
                          (packets @ [p]))))"
  by (subst extractLoop.simps) simp

lemma replicate_numeral_Cons: "replicate (numeral k) x = x # replicate (pred_numeral k) x"
  by (simp add: numeral_eq_Suc)

lemmas eval_rules =
  getUint8_def getUint16_def getUint32_def outOfBounds_def slice_buffer_def digitChar_def
  padStart_def bufferToHex_def COMMAND_ID_MAP_def DATA_CODING_MAP_def ESM_CLASS_MAP_def
  utf8_init_def utf8_lead_def utf8_encode_def dropBOM_def windows1252_def
  TextDecoder_decode_def decodeMessage_def newUint8Array_def bytesRemaining_def
  peekUint32_def readUint32_def readUint8_def cstringEnd_step cstringEnd_stop
  readCString_def readBytes_def readTlv_def hexDigitValue_def parseInt16_def toUint8_def
  hexToBytes_def readTlvs_more readTlvs_done tagToString16_def parseDeliverSmBody_def
  parseSmppPdu_def knownCommandIds_def scanStep_def scanLoop_more scanLoop_done
  parseMultipleSmppPdus_def dotted_def stripFrame_def extractLoop_end extractLoop_short
  extractLoop_more extractAllTcpPayloads_def toString16_small toString16_big
  toString10_small toString10_big Let_def char_of_def bit_0 replicate_numeral_Cons

section \<open>ESM class\<close>

lemma and_3_eq_mod: "(v::nat) AND 3 = v mod 4"
  using take_bit_eq_mask [of 2 v] by (simp add: take_bit_eq_mod mask_eq_exp_minus_1)

lemma and_60_eq_div_mod: "(v::nat) AND 60 = 4 * (v div 4 mod 16)"
proof -
  have e: "(60::nat) = push_bit 2 (mask 4)"
    by (simp add: mask_eq_exp_minus_1 push_bit_eq_mult)
  have aux: "\<And>n::nat. 2 \<le> n \<Longrightarrow> Suc (Suc (n - 2)) = n" by arith
  have "v AND push_bit 2 (mask 4) = push_bit 2 (take_bit 4 (drop_bit 2 v))"
    by (rule bit_eqI) (auto simp add: bit_simps aux)
  also have "\<dots> = 4 * (v div 4 mod 16)"
    by (simp add: push_bit_eq_mult drop_bit_eq_div take_bit_eq_mod)
  finally show ?thesis using e by simp
qed

lemma ESM_CLASS_MAP_bits:
  fixes b :: byte
  shows "ESM_CLASS_MAP (unat b) =
     (let messagingMode = unat b mod 4;
          messageType = unat b div 4 mod 16
      in (if messageType = 0 then ''Default Message''
          else if messageType = 1 then ''Delivery Receipt''
          else if messageType = 2 then ''Delivery Acknowledgement''
          else ''Unknown Type'') @ '', '' @
         (if messagingMode = 0 then ''Default Mode''
          else if messagingMode = 3 then ''Store and Forward''
          else ''Unknown Mode''))"
proof -
  have lt: "4 * (unat b div 4 mod 16) < 64" by simp
  show ?thesis
    unfolding ESM_CLASS_MAP_def Let_def and_3_eq_mod and_60_eq_div_mod
    using lt by auto
qed

lemma bindE:
  assumes "bind m f = Inr y"
  obtains v where "m = Inr v" and "f v = Inr y"
  using assms by (cases m) auto

lemma readCString_Inr:
  assumes "readCString td r = Inr (s, r')"
  shows "r' = r\<lparr>offset := afterCString (view r) (offset r)\<rparr>"
  using assms unfolding readCString_def afterCString_def Let_def
  apply -
  apply (erule bindE)+
  apply (simp only: sum.inject prod.inject)
  done

lemma readUint8_Inr:
  assumes "readUint8 r = Inr (v, r')"
  shows "r' = r\<lparr>offset := offset r + 1\<rparr> \<and> offset r < length (view r) \<and>
         v = unat (view r ! offset r)"
proof -
  from assms obtain x where x: "getUint8 (view r) (offset r) = Inr x"
    and eq: "Inr (x, r\<lparr>offset := offset r + 1\<rparr>) = (Inr (v, r') :: exn + nat \<times> BufferReader)"
    unfolding readUint8_def by (rule bindE)
  from x have "offset r < length (view r)" and "x = unat (view r ! offset r)"
    by (simp_all add: getUint8_def split: if_splits)
  with eq show ?thesis by simp
qed

lemma parseDeliverSmBody_esm_class:
  assumes "parseDeliverSmBody td reader smppLength = Inr b"
  shows "esmClassOffset (view reader) (offset reader) < length (view reader) \<and>
         esm_class b =
           (let esmClass = unat (view reader ! esmClassOffset (view reader) (offset reader))
            in ESM_CLASS_MAP esmClass @ '' (0x'' @
               padStart 2 CHR ''0'' (toString16 esmClass) @ '')'')"
proof (insert assms [unfolded parseDeliverSmBody_def],
    (erule bindE, simp only: split_paired_all prod.case)+, simp only: sum.inject, goal_cases)
  case (1 s1 r1 v2 r2 v3 r3 s4 r4 v5 r5 v6 r6 s7 r7 e r8 v9 r9 v10 r10 v11 r11 v12 r12
        v13 r13 v14 r14 short r15 ts mc)
  note h = 1
  let ?buf = "view reader"
  let ?p1 = "afterCString ?buf (offset reader)"
  let ?p2 = "afterCString ?buf (?p1 + 2)"
  from readCString_Inr [OF h(1)] have r1: "r1 = reader\<lparr>offset := ?p1\<rparr>" .
  from readUint8_Inr [OF h(2)] r1 have r2: "r2 = reader\<lparr>offset := ?p1 + 1\<rparr>" by simp
  from readUint8_Inr [OF h(3)] r2 have r3: "r3 = reader\<lparr>offset := ?p1 + 2\<rparr>" by simp
  from readCString_Inr [OF h(4)] r3 have r4: "r4 = reader\<lparr>offset := ?p2\<rparr>" by simp
  from readUint8_Inr [OF h(5)] r4 have r5: "r5 = reader\<lparr>offset := ?p2 + 1\<rparr>" by simp
  from readUint8_Inr [OF h(6)] r5 have r6: "r6 = reader\<lparr>offset := ?p2 + 2\<rparr>" by simp
  from readCString_Inr [OF h(7)] r6
  have r7: "r7 = reader\<lparr>offset := esmClassOffset ?buf (offset reader)\<rparr>"
    by (simp add: esmClassOffset_def)
  from readUint8_Inr [OF h(8)] r7 have
    pos: "esmClassOffset ?buf (offset reader) < length ?buf" and
    e: "e = unat (?buf ! esmClassOffset ?buf (offset reader))"
    by simp_all
  have "esm_class b = ESM_CLASS_MAP e @ '' (0x'' @ padStart 2 CHR ''0'' (toString16 e) @ '')''"
    unfolding h(17) [symmetric] by simp
  with pos e show ?case by (simp add: Let_def)
qed

text \<open>
  C8. Whenever the deliver_sm decoder returns a body, its \<open>esm_class\<close> field is the
  rendering of the byte that stands behind the three strings and four single bytes before
  it: the message type looked up from bits 2 to 5 of that byte, a comma, the messaging
  mode looked up from bits 0 and 1, and the byte in hexadecimal; "Unknown Type" and
  "Unknown Mode" stand for every value of a subfield that the table does not hold. The
  same decomposition holds of \<open>ESM_CLASS_MAP\<close> on every byte. The message type is taken
  under the mask \<open>0b00111100\<close>, so the three entries of the source's table whose keys
  have bit 6 or bit 7 set are never selected; the theorem lists the three that are.
\<close>

theorem deliver_sm_esm_class_rendering:
  fixes e :: byte
  assumes "parseDeliverSmBody td reader smppLength = Inr b"
  shows "esmClassOffset (view reader) (offset reader) < length (view reader)
     \<and> esm_class b =
           (let esmClass = unat (view reader ! esmClassOffset (view reader) (offset reader));
                messagingMode = esmClass mod 4;
                messageType = esmClass div 4 mod 16
            in (if messageType = 0 then ''Default Message''
                else if messageType = 1 then ''Delivery Receipt''
                else if messageType = 2 then ''Delivery Acknowledgement''
                else ''Unknown Type'') @ '', '' @
               (if messagingMode = 0 then ''Default Mode''
                else if messagingMode = 3 then ''Store and Forward''
                else ''Unknown Mode'') @
               '' (0x'' @ padStart 2 CHR ''0'' (toString16 esmClass) @ '')'')
     \<and> ESM_CLASS_MAP (unat e) =
           (let messagingMode = unat e mod 4;
                messageType = unat e div 4 mod 16
            in (if messageType = 0 then ''Default Message''
                else if messageType = 1 then ''Delivery Receipt''
                else if messageType = 2 then ''Delivery Acknowledgement''
                else ''Unknown Type'') @ '', '' @
               (if messagingMode = 0 then ''Default Mode''
                else if messagingMode = 3 then ''Store and Forward''
                else ''Unknown Mode''))"
proof -
  let ?c = "view reader ! esmClassOffset (view reader) (offset reader)"
  from parseDeliverSmBody_esm_class [OF assms] ESM_CLASS_MAP_bits [of ?c] ESM_CLASS_MAP_bits [of e]
  show ?thesis by (simp add: Let_def)
qed

theorem deliver_sm_esm_class_rendering_witness:
  "parseDeliverSmBody TextDecoder_decode \<lparr>view = [0, 1, 1, 0, 1, 1, 0, 0x3c, 0, 0, 0, 4, 0, 0], offset = 0\<rparr> 30 =
     Inr \<lparr>service_type = [], source_addr_ton = 1, source_addr_npi = 1, source_address = [],
        dest_addr_ton = 1, dest_addr_npi = 1, dest_address = [],
        esm_class = ''Unknown Type, Default Mode (0x3c)'', protocol_id = 0, priority_flag = 0,
        replace_if_present_flag = 0, data_coding = 4, sm_default_msg_id = 0, sm_length = 0,
        short_message = None, tlvs = None, decoded_message = ''(No message content)''\<rparr>
   \<and> esmClassOffset [0, 1, 1, 0, 1, 1, 0, 0x3c, 0, 0, 0, 4, 0, 0] 0 = 7
   \<and> esm_class \<lparr>service_type = [], source_addr_ton = 1, source_addr_npi = 1, source_address = [],
        dest_addr_ton = 1, dest_addr_npi = 1, dest_address = [],
        esm_class = ''Unknown Type, Default Mode (0x3c)'', protocol_id = 0, priority_flag = 0,
        replace_if_present_flag = 0, data_coding = 4, sm_default_msg_id = 0, sm_length = 0,
        short_message = None, tlvs = None, decoded_message = ''(No message content)''\<rparr> = ''Unknown Type, Default Mode (0x3c)''
   \<and> ESM_CLASS_MAP (unat (0x07 :: byte)) = ''Delivery Receipt, Store and Forward''"
proof -
  have run: "parseDeliverSmBody TextDecoder_decode \<lparr>view = [0, 1, 1, 0, 1, 1, 0, 0x3c, 0, 0, 0, 4, 0, 0], offset = 0\<rparr> 30 =
     Inr \<lparr>service_type = [], source_addr_ton = 1, source_addr_npi = 1, source_address = [],
        dest_addr_ton = 1, dest_addr_npi = 1, dest_address = [],
        esm_class = ''Unknown Type, Default Mode (0x3c)'', protocol_id = 0, priority_flag = 0,
        replace_if_present_flag = 0, data_coding = 4, sm_default_msg_id = 0, sm_length = 0,
        short_message = None, tlvs = None, decoded_message = ''(No message content)''\<rparr>"
    by (simp add: eval_rules cong: bind_weak_cong let_weak_cong split del: if_split)
  have pos: "esmClassOffset [0, 1, 1, 0, 1, 1, 0, 0x3c, 0, 0, 0, 4, 0, 0] 0 = 7"
    by (simp add: esmClassOffset_def afterCString_def cstringEnd_step cstringEnd_stop)
  from deliver_sm_esm_class_rendering [OF run, where e = "0x07"] run pos
  show ?thesis by (simp add: toString16_small toString16_big digitChar_def padStart_def)
qed

section \<open>Rendering the message content\<close>

text \<open>
  C5. \<open>decodeMessage\<close> returns a string for every buffer, every data coding and every
  behaviour of the platform's decoder, and that string starts with the scheme name in
  parentheses. The bytes of "Hello" under data coding 4 render as "(UTF-8) Hello"; data
  coding 0 and every data coding other than 0, 3, 4 and 8 (0xFF among them) render a
  labelled hexadecimal dump; a decoder that throws renders a labelled error string.
\<close>

theorem decodeMessage_rendering:
  "(\<exists>content. decodeMessage td messageBuffer dataCoding =
       ''('' @ (case map_of DATA_CODING_MAP dataCoding of
                  Some s \<Rightarrow> s
                | None \<Rightarrow> ''Unknown (0x'' @ toString16 dataCoding @ '')'') @ '') '' @ content)
   \<and> decodeMessage TextDecoder_decode [0x48, 0x65, 0x6c, 0x6c, 0x6f] 0x04 = ''(UTF-8) Hello''
   \<and> decodeMessage td messageBuffer 0x00 =
       ''(Default (GSM 7-bit)) [GSM 7-bit encoded data: '' @ bufferToHex messageBuffer @ '']''
   \<and> decodeMessage td messageBuffer 0xFF =
       ''(Unknown (0xff)) [Binary Data: '' @ bufferToHex messageBuffer @ '']''
   \<and> (dataCoding \<notin> {0x00, 0x03, 0x04, 0x08} \<longrightarrow>
        (\<exists>scheme. decodeMessage td messageBuffer dataCoding =
           ''('' @ scheme @ '') [Binary Data: '' @ bufferToHex messageBuffer @ '']''))
   \<and> (\<forall>e. td UTF8 messageBuffer = Inl e \<longrightarrow>
         decodeMessage td messageBuffer 0x04 =
           ''(UTF-8) [Error decoding: '' @ message e @ '']'')"
proof (intro conjI allI impI)
  show "\<exists>content. decodeMessage td messageBuffer dataCoding =
       ''('' @ (case map_of DATA_CODING_MAP dataCoding of
                  Some s \<Rightarrow> s
                | None \<Rightarrow> ''Unknown (0x'' @ toString16 dataCoding @ '')'') @ '') '' @ content"
    unfolding decodeMessage_def Let_def by blast
  show "decodeMessage TextDecoder_decode [0x48, 0x65, 0x6c, 0x6c, 0x6f] 0x04 = ''(UTF-8) Hello''"
    by (simp add: decodeMessage_def TextDecoder_decode_def DATA_CODING_MAP_def utf8_init_def
          utf8_lead_def dropBOM_def utf8_encode_def char_of_def bit_0)
  show "decodeMessage td messageBuffer 0x00 =
       ''(Default (GSM 7-bit)) [GSM 7-bit encoded data: '' @ bufferToHex messageBuffer @ '']''"
    by (simp add: decodeMessage_def DATA_CODING_MAP_def)
  show "decodeMessage td messageBuffer 0xFF =
       ''(Unknown (0xff)) [Binary Data: '' @ bufferToHex messageBuffer @ '']''"
    by (simp add: decodeMessage_def DATA_CODING_MAP_def toString16_small toString16_big
          digitChar_def)
  show "\<exists>scheme. decodeMessage td messageBuffer dataCoding =
           ''('' @ scheme @ '') [Binary Data: '' @ bufferToHex messageBuffer @ '']''"
    if "dataCoding \<notin> {0x00, 0x03, 0x04, 0x08}"
    using that unfolding decodeMessage_def Let_def by auto
  show "decodeMessage td messageBuffer 0x04 = ''(UTF-8) [Error decoding: '' @ message e @ '']''"
    if "td UTF8 messageBuffer = Inl e" for e
    using that by (simp add: decodeMessage_def DATA_CODING_MAP_def)
qed

theorem decodeMessage_rendering_witness:
  "(255::nat) \<notin> {0x00, 0x03, 0x04, 0x08}
   \<and> (\<lambda>enc bytes. Inl (Error ''boom'')) UTF8 [0xC3] = (Inl (Error ''boom'') :: exn + string)
   \<and> decodeMessage (\<lambda>enc bytes. Inl (Error ''boom'')) [0xC3] 0x04 =
         ''(UTF-8) [Error decoding: boom]''
   \<and> (\<exists>scheme. decodeMessage (\<lambda>enc bytes. Inl (Error ''boom'')) [0xC3] 255 =
         ''('' @ scheme @ '') [Binary Data: c3]'')"
  using decodeMessage_rendering [of "\<lambda>enc bytes. Inl (Error ''boom'')" "[0xC3]" 255]
  by (simp add: bufferToHex_def padStart_def toString16_small toString16_big digitChar_def)

section \<open>Decoding one PDU\<close>

lemma getUint32_total: "off + 4 \<le> length buf \<Longrightarrow> \<exists>v. getUint32 buf off le = Inr v"
  by (simp add: getUint32_def Let_def)

text \<open>
  C10. \<open>parseSmppPdu\<close> does not return a result on every bounded PDU buffer: on every
  buffer of exactly 16 bytes whose command id is 0x00000002 (deliver_sm), with a platform
  decoder that returns on the empty input, the body parser reads the byte at offset 16 and
  the RangeError of that read leaves \<open>parseSmppPdu\<close>. The boundary scanner catches it:
  scanning the same buffer returns the empty list.
\<close>

theorem parseSmppPdu_header_only_deliver_sm:
  assumes len: "length pduBuffer = 16"
    and cid: "getUint32 pduBuffer 4 False = Inr 0x00000002"
    and dec: "td ASCII [] = Inr s"
  shows "parseSmppPdu td pduBuffer = Inl outOfBounds
         \<and> parseMultipleSmppPdus td pduBuffer = Inr []"
proof -
  have c: "cstringEnd pduBuffer 16 = 16" using len by (simp add: cstringEnd_stop)
  have "readCString td \<lparr>view = pduBuffer, offset = 16\<rparr> =
          Inr (s, \<lparr>view = pduBuffer, offset = 16\<rparr>)"
    using len dec by (simp add: readCString_def c newUint8Array_def Let_def
          cong: bind_weak_cong let_weak_cong)
  moreover have "readUint8 \<lparr>view = pduBuffer, offset = 16\<rparr> = Inl outOfBounds"
    using len by (simp add: readUint8_def getUint8_def)
  ultimately have b: "parseDeliverSmBody td \<lparr>view = pduBuffer, offset = 16\<rparr> n = Inl outOfBounds"
    for n
    by (simp add: parseDeliverSmBody_def cong: bind_weak_cong)
  obtain cl where cl: "getUint32 pduBuffer 0 False = Inr cl"
    using getUint32_total [of 0 pduBuffer False] len by auto
  obtain cs where cs: "getUint32 pduBuffer 8 False = Inr cs"
    using getUint32_total [of 8 pduBuffer False] len by auto
  obtain sn where sn: "getUint32 pduBuffer 12 False = Inr sn"
    using getUint32_total [of 12 pduBuffer False] len by auto
  have p: "parseSmppPdu td pduBuffer = Inl outOfBounds"
    by (simp add: parseSmppPdu_def readUint32_def cl cid cs sn COMMAND_ID_MAP_def b
          cong: bind_weak_cong let_weak_cong)
  have "scanStep td pduBuffer 0 = Inr (None, 1)"
    using len cid cl p
    by (simp add: scanStep_def knownCommandIds_def COMMAND_ID_MAP_def slice_buffer_def
          cong: bind_weak_cong)
  then have "scanLoop td pduBuffer 0 [] = Inr []"
    using len by (simp add: scanLoop_more scanLoop_done)
  with p show ?thesis by (simp add: parseMultipleSmppPdus_def)
qed

theorem parseSmppPdu_header_only_deliver_sm_witness:
  "length [0, 0, 0, 16, 0, 0, 0, 2, 0, 0, 0, 0, 0, 0, 0, 1 :: byte] = 16
   \<and> getUint32 [0, 0, 0, 16, 0, 0, 0, 2, 0, 0, 0, 0, 0, 0, 0, 1] 4 False = Inr 0x00000002
   \<and> TextDecoder_decode ASCII [] = Inr []
   \<and> parseSmppPdu TextDecoder_decode [0, 0, 0, 16, 0, 0, 0, 2, 0, 0, 0, 0, 0, 0, 0, 1] =
       Inl (RangeError ''Offset is outside the bounds of the DataView'')
   \<and> parseMultipleSmppPdus TextDecoder_decode [0, 0, 0, 16, 0, 0, 0, 2, 0, 0, 0, 0, 0, 0, 0, 1] =
       Inr []"
proof -
  have h1: "length [0, 0, 0, 16, 0, 0, 0, 2, 0, 0, 0, 0, 0, 0, 0, 1 :: byte] = 16" by simp
  have h2: "getUint32 [0, 0, 0, 16, 0, 0, 0, 2, 0, 0, 0, 0, 0, 0, 0, 1] 4 False = Inr 0x00000002"
    by (simp add: getUint32_def)
  have h3: "TextDecoder_decode ASCII [] = Inr []" by (simp add: TextDecoder_decode_def)
  from parseSmppPdu_header_only_deliver_sm [where td = TextDecoder_decode and s = "[]", OF h1 h2 h3]
    h1 h2 h3
  show ?thesis by (simp add: outOfBounds_def)
qed

section \<open>Tagged parameters\<close>



section \<open>The boundary scanner\<close>

lemma scanStep_cases:
  assumes "off + 16 \<le> length tcpPayload"
  shows "\<exists>p off'. scanStep td tcpPayload off = Inr (p, off') \<and>
           (p = None \<and> off' = off + 1 \<or>
            (\<exists>n pdu. p = Some pdu \<and> off' = off + n \<and> 16 \<le> n \<and>
               getUint32 tcpPayload off False = Inr n \<and> off + n \<le> length tcpPayload \<and>
               parseSmppPdu td (slice_buffer tcpPayload off (off + n)) = Inr pdu))"
proof -
  from assms obtain cid where cid: "getUint32 tcpPayload (off + 4) False = Inr cid"
    using getUint32_total [of "off + 4" tcpPayload False] by auto
  from assms obtain n where n: "getUint32 tcpPayload off False = Inr n"
    using getUint32_total [of off tcpPayload False] by auto
  show ?thesis
  proof (cases "parseSmppPdu td (slice_buffer tcpPayload off (off + n))")
    case (Inl e)
    then show ?thesis by (simp add: scanStep_def cid n)
  next
    case (Inr pdu)
    then show ?thesis by (simp add: scanStep_def cid n)
  qed
qed

lemma scanLoop_total: "\<exists>pdus. scanLoop td tcpPayload off allPdus = Inr pdus"
proof (induction td tcpPayload off allPdus rule: scanLoop.induct)
  case (1 td tcpPayload off allPdus)
  show ?case
  proof (cases "off + 16 \<le> length tcpPayload")
    case False
    then show ?thesis by (simp add: scanLoop_done)
  next
    case True
    from scanStep_cases [OF True, of td] obtain p off' where
      s: "scanStep td tcpPayload off = Inr (p, off')" by blast
    show ?thesis
    proof (cases p)
      case None
      with "1.IH"(1) [OF True s refl] s True show ?thesis
        by (simp add: scanLoop_more)
    next
      case (Some pdu)
      with "1.IH"(2) [OF True s refl] s True show ?thesis
        by (simp add: scanLoop_more)
    qed
  qed
qed

text \<open>
  C9. \<open>parseMultipleSmppPdus\<close> returns a list for every payload and every behaviour of
  the platform's decoder: its loop is defined by a recursion whose termination is proved
  from \<open>scanStep_advances\<close>, and no exception leaves it. One iteration at an offset with
  16 bytes left moves the cursor by exactly one byte, or by the accepted command length,
  which is at least 16. When decoding the accepted slice throws, the iteration pushes
  nothing and moves the cursor by one byte.
\<close>

theorem scanner_terminates_without_exception:
  "(\<exists>pdus. parseMultipleSmppPdus td tcpPayload = Inr pdus)
   \<and> (off + 16 \<le> length tcpPayload \<longrightarrow>
        (\<exists>p off'. scanStep td tcpPayload off = Inr (p, off') \<and>
           (p = None \<and> off' = off + 1 \<or>
            (\<exists>n pdu. p = Some pdu \<and> off' = off + n \<and> 16 \<le> n \<and>
               getUint32 tcpPayload off False = Inr n))))
   \<and> (off + 16 \<le> length tcpPayload \<longrightarrow>
        (\<forall>n e. getUint32 tcpPayload off False = Inr n \<longrightarrow>
           parseSmppPdu td (slice_buffer tcpPayload off (off + n)) = Inl e \<longrightarrow>
           scanStep td tcpPayload off = Inr (None, off + 1)))"
proof (intro conjI impI allI)
  show "\<exists>pdus. parseMultipleSmppPdus td tcpPayload = Inr pdus"
    unfolding parseMultipleSmppPdus_def by (rule scanLoop_total)
next
  assume "off + 16 \<le> length tcpPayload"
  from scanStep_cases [OF this, of td]
  show "\<exists>p off'. scanStep td tcpPayload off = Inr (p, off') \<and>
           (p = None \<and> off' = off + 1 \<or>
            (\<exists>n pdu. p = Some pdu \<and> off' = off + n \<and> 16 \<le> n \<and>
               getUint32 tcpPayload off False = Inr n))"
    by blast
next
  fix n e
  assume a: "off + 16 \<le> length tcpPayload" "getUint32 tcpPayload off False = Inr n"
    "parseSmppPdu td (slice_buffer tcpPayload off (off + n)) = Inl e"
  from a(1) obtain cid where cid: "getUint32 tcpPayload (off + 4) False = Inr cid"
    using getUint32_total [of "off + 4" tcpPayload False] by auto
  show "scanStep td tcpPayload off = Inr (None, off + 1)"
    by (simp add: scanStep_def cid a)
qed


theorem scanner_terminates_without_exception_witness:
  "0 + 16 \<le> length ([0, 0, 0, 16, 0, 0, 0, 2, 0, 0, 0, 0, 0, 0, 0, 1, 0, 0, 0, 16, 0, 0, 0, 4, 0, 0, 0, 0, 0, 0, 0, 1] :: byte list)
   \<and> getUint32 [0, 0, 0, 16, 0, 0, 0, 2, 0, 0, 0, 0, 0, 0, 0, 1, 0, 0, 0, 16, 0, 0, 0, 4, 0, 0, 0, 0, 0, 0, 0, 1] 0 False = Inr 16
   \<and> parseSmppPdu TextDecoder_decode (slice_buffer [0, 0, 0, 16, 0, 0, 0, 2, 0, 0, 0, 0, 0, 0, 0, 1, 0, 0, 0, 16, 0, 0, 0, 4, 0, 0, 0, 0, 0, 0, 0, 1] 0 (0 + 16)) =
       Inl (RangeError ''Offset is outside the bounds of the DataView'')
   \<and> scanStep TextDecoder_decode [0, 0, 0, 16, 0, 0, 0, 2, 0, 0, 0, 0, 0, 0, 0, 1, 0, 0, 0, 16, 0, 0, 0, 4, 0, 0, 0, 0, 0, 0, 0, 1] 0 = Inr (None, 0 + 1)
   \<and> parseMultipleSmppPdus TextDecoder_decode [0, 0, 0, 16, 0, 0, 0, 2, 0, 0, 0, 0, 0, 0, 0, 1, 0, 0, 0, 16, 0, 0, 0, 4, 0, 0, 0, 0, 0, 0, 0, 1] =
       Inr [\<lparr>header = \<lparr>command_length = 16, command_id = 4, command_name = ''enquire_link'',
                         command_status = 0, sequence_no = 1\<rparr>,
             body = Unsupported ''Parser for enquire_link (0x4) is not implemented.'' ''No body''\<rparr>]"
proof -
  have h1: "0 + 16 \<le> length ([0, 0, 0, 16, 0, 0, 0, 2, 0, 0, 0, 0, 0, 0, 0, 1, 0, 0, 0, 16, 0, 0, 0, 4, 0, 0, 0, 0, 0, 0, 0, 1] :: byte list)" by simp
  have h2: "getUint32 [0, 0, 0, 16, 0, 0, 0, 2, 0, 0, 0, 0, 0, 0, 0, 1, 0, 0, 0, 16, 0, 0, 0, 4, 0, 0, 0, 0, 0, 0, 0, 1] 0 False = Inr 16" by (simp add: getUint32_def)
  have h3: "parseSmppPdu TextDecoder_decode (slice_buffer [0, 0, 0, 16, 0, 0, 0, 2, 0, 0, 0, 0, 0, 0, 0, 1, 0, 0, 0, 16, 0, 0, 0, 4, 0, 0, 0, 0, 0, 0, 0, 1] 0 (0 + 16)) =
       Inl (RangeError ''Offset is outside the bounds of the DataView'')"
    by (simp add: eval_rules cong: bind_weak_cong let_weak_cong split del: if_split)
  have run: "parseMultipleSmppPdus TextDecoder_decode [0, 0, 0, 16, 0, 0, 0, 2, 0, 0, 0, 0, 0, 0, 0, 1, 0, 0, 0, 16, 0, 0, 0, 4, 0, 0, 0, 0, 0, 0, 0, 1] =
       Inr [\<lparr>header = \<lparr>command_length = 16, command_id = 4, command_name = ''enquire_link'',
                         command_status = 0, sequence_no = 1\<rparr>,
             body = Unsupported ''Parser for enquire_link (0x4) is not implemented.'' ''No body''\<rparr>]"
    by (simp add: eval_rules cong: bind_weak_cong let_weak_cong split del: if_split)
  from scanner_terminates_without_exception [of TextDecoder_decode "[0, 0, 0, 16, 0, 0, 0, 2, 0, 0, 0, 0, 0, 0, 0, 1, 0, 0, 0, 16, 0, 0, 0, 4, 0, 0, 0, 0, 0, 0, 0, 1]" 0] h1 h2 h3 run
  show ?thesis by blast
qed

section \<open>Iterating over the capture records\<close>

text \<open>
  C4. At every offset of the record loop of \<open>extractAllTcpPayloads\<close>, whatever the bytes
  of the length fields: when fewer than 16 bytes remain for a record header the loop
  returns the summaries collected so far; otherwise the read of the captured length lies
  inside the buffer, and when the declared length runs past the end of the buffer (as
  0xFFFFFFFF always does) the loop again returns the summaries collected so far. No
  exception is raised and the truncated record is dropped.
\<close>

theorem record_iteration_stops_at_truncation:
  "(length buf < off + 16 \<longrightarrow>
      extractLoop buf littleEndian off packetIndex packets = Inr packets)
   \<and> (off + 16 \<le> length buf \<longrightarrow>
        (\<exists>incl_len. getUint32 buf (off + 8) littleEndian = Inr incl_len \<and>
           (length buf < off + 16 + incl_len \<longrightarrow>
              extractLoop buf littleEndian off packetIndex packets = Inr packets)))"
proof (intro conjI impI)
  assume "length buf < off + 16"
  then show "extractLoop buf littleEndian off packetIndex packets = Inr packets"
    by (rule extractLoop_short)
next
  assume a: "off + 16 \<le> length buf"
  then obtain incl_len where n: "getUint32 buf (off + 8) littleEndian = Inr incl_len"
    using getUint32_total [of "off + 8" buf littleEndian] by auto
  have "extractLoop buf littleEndian off packetIndex packets = Inr packets"
    if "length buf < off + 16 + incl_len"
    using that a n by (simp add: extractLoop_more)
  with n show "\<exists>incl_len. getUint32 buf (off + 8) littleEndian = Inr incl_len \<and>
           (length buf < off + 16 + incl_len \<longrightarrow>
              extractLoop buf littleEndian off packetIndex packets = Inr packets)"
    by blast
qed

theorem record_iteration_stops_at_truncation_witness:
  "24 + 16 \<le> length ([212, 195, 178, 161, 0, 0, 0, 0, 0, 0, 0, 0, 0, 0, 0, 0, 0, 0, 0, 0, 0, 0, 0, 0, 0, 0, 0, 0, 0, 0, 0, 0, 255, 255, 255, 255, 0, 0, 0, 0, 1, 2, 3] :: byte list)
   \<and> getUint32 [212, 195, 178, 161, 0, 0, 0, 0, 0, 0, 0, 0, 0, 0, 0, 0, 0, 0, 0, 0, 0, 0, 0, 0, 0, 0, 0, 0, 0, 0, 0, 0, 255, 255, 255, 255, 0, 0, 0, 0, 1, 2, 3] (24 + 8) True = Inr 0xFFFFFFFF
   \<and> length ([212, 195, 178, 161, 0, 0, 0, 0, 0, 0, 0, 0, 0, 0, 0, 0, 0, 0, 0, 0, 0, 0, 0, 0, 0, 0, 0, 0, 0, 0, 0, 0, 255, 255, 255, 255, 0, 0, 0, 0, 1, 2, 3] :: byte list) < 24 + 16 + 0xFFFFFFFF
   \<and> extractLoop [212, 195, 178, 161, 0, 0, 0, 0, 0, 0, 0, 0, 0, 0, 0, 0, 0, 0, 0, 0, 0, 0, 0, 0, 0, 0, 0, 0, 0, 0, 0, 0, 255, 255, 255, 255, 0, 0, 0, 0, 1, 2, 3] True 24 0 [] = Inr []
   \<and> extractAllTcpPayloads [212, 195, 178, 161, 0, 0, 0, 0, 0, 0, 0, 0, 0, 0, 0, 0, 0, 0, 0, 0, 0, 0, 0, 0, 0, 0, 0, 0, 0, 0, 0, 0, 255, 255, 255, 255, 0, 0, 0, 0, 1, 2, 3] = Inr []
   \<and> extractAllTcpPayloads [212, 195, 178, 161, 0, 0, 0, 0, 0, 0, 0, 0, 0, 0, 0, 0, 0, 0, 0, 0, 0, 0, 0, 0, 0, 0, 0, 0, 0, 0, 0, 0, 71, 0, 0, 0, 0, 0, 0, 0, 0, 0, 0, 0, 0, 0, 0, 0, 0, 0, 0, 0, 8, 0, 69, 0, 0, 0, 0, 0, 0, 0, 64, 6, 0, 0, 10, 0, 0, 1, 10, 0, 0, 2, 10, 215, 39, 15, 0, 0, 0, 0, 0, 0, 0, 0, 80, 0, 0, 0, 0, 0, 0, 0, 0, 0, 0, 16, 0, 0, 0, 4, 0, 0, 0, 0, 0, 0, 0, 1, 0, 0, 0, 0, 0, 0, 0, 0, 0, 255, 255, 255, 255, 0, 0, 0, 0, 1, 2, 3] =
       Inr [\<lparr>index = 1, sourceIp = ''10.0.0.1'', destIp = ''10.0.0.2'', sourcePort = 2775,
             destPort = 9999, length_pkt = 17, info = ''enquire_link (Multiple)'',
             payload = [0, 0, 0, 16, 0, 0, 0, 4, 0, 0, 0, 0, 0, 0, 0, 1, 0]\<rparr>]"
proof -
  have h1: "24 + 16 \<le> length ([212, 195, 178, 161, 0, 0, 0, 0, 0, 0, 0, 0, 0, 0, 0, 0, 0, 0, 0, 0, 0, 0, 0, 0, 0, 0, 0, 0, 0, 0, 0, 0, 255, 255, 255, 255, 0, 0, 0, 0, 1, 2, 3] :: byte list)" by simp
  have h2: "getUint32 [212, 195, 178, 161, 0, 0, 0, 0, 0, 0, 0, 0, 0, 0, 0, 0, 0, 0, 0, 0, 0, 0, 0, 0, 0, 0, 0, 0, 0, 0, 0, 0, 255, 255, 255, 255, 0, 0, 0, 0, 1, 2, 3] (24 + 8) True = Inr 0xFFFFFFFF" by (simp add: getUint32_def)
  have h3: "length ([212, 195, 178, 161, 0, 0, 0, 0, 0, 0, 0, 0, 0, 0, 0, 0, 0, 0, 0, 0, 0, 0, 0, 0, 0, 0, 0, 0, 0, 0, 0, 0, 255, 255, 255, 255, 0, 0, 0, 0, 1, 2, 3] :: byte list) < 24 + 16 + 0xFFFFFFFF" by simp
  have r1: "extractAllTcpPayloads [212, 195, 178, 161, 0, 0, 0, 0, 0, 0, 0, 0, 0, 0, 0, 0, 0, 0, 0, 0, 0, 0, 0, 0, 0, 0, 0, 0, 0, 0, 0, 0, 255, 255, 255, 255, 0, 0, 0, 0, 1, 2, 3] = Inr []"
    by (simp add: eval_rules cong: bind_weak_cong let_weak_cong split del: if_split)
  have r2: "extractAllTcpPayloads [212, 195, 178, 161, 0, 0, 0, 0, 0, 0, 0, 0, 0, 0, 0, 0, 0, 0, 0, 0, 0, 0, 0, 0, 0, 0, 0, 0, 0, 0, 0, 0, 71, 0, 0, 0, 0, 0, 0, 0, 0, 0, 0, 0, 0, 0, 0, 0, 0, 0, 0, 0, 8, 0, 69, 0, 0, 0, 0, 0, 0, 0, 64, 6, 0, 0, 10, 0, 0, 1, 10, 0, 0, 2, 10, 215, 39, 15, 0, 0, 0, 0, 0, 0, 0, 0, 80, 0, 0, 0, 0, 0, 0, 0, 0, 0, 0, 16, 0, 0, 0, 4, 0, 0, 0, 0, 0, 0, 0, 1, 0, 0, 0, 0, 0, 0, 0, 0, 0, 255, 255, 255, 255, 0, 0, 0, 0, 1, 2, 3] =
       Inr [\<lparr>index = 1, sourceIp = ''10.0.0.1'', destIp = ''10.0.0.2'', sourcePort = 2775,
             destPort = 9999, length_pkt = 17, info = ''enquire_link (Multiple)'',
             payload = [0, 0, 0, 16, 0, 0, 0, 4, 0, 0, 0, 0, 0, 0, 0, 1, 0]\<rparr>]"
    by (simp add: eval_rules cong: bind_weak_cong let_weak_cong split del: if_split)
  from record_iteration_stops_at_truncation [of "[212, 195, 178, 161, 0, 0, 0, 0, 0, 0, 0, 0, 0, 0, 0, 0, 0, 0, 0, 0, 0, 0, 0, 0, 0, 0, 0, 0, 0, 0, 0, 0, 255, 255, 255, 255, 0, 0, 0, 0, 1, 2, 3]" 24 True 0 "[]"] h1 h2 h3 r1 r2
  show ?thesis by simp
qed

section \<open>The scanner on concatenated PDUs and on leading garbage\<close>

lemma getUint32_append_left:
  "off + 4 \<le> length xs \<Longrightarrow> getUint32 (xs @ ys) off le = getUint32 xs off le"
  by (simp add: getUint32_def nth_append)

lemma getUint32_append_right:
  "getUint32 (xs @ ys) (length xs + off) le = getUint32 ys off le"
  by (simp add: getUint32_def nth_append add.assoc)

lemma slice_buffer_middle:
  "slice_buffer (pre @ p @ post) (length pre) (length pre + length p) = p"
  by (simp add: slice_buffer_def)

lemma scanStep_valid:
  assumes "validPdu td p r"
  shows "scanStep td (pre @ p @ post) (length pre) = Inr (Some r, length pre + length p)"
proof -
  from assms have len: "16 \<le> length p" and cl: "getUint32 p 0 False = Inr (length p)"
    and parse: "parseSmppPdu td p = Inr r"
    by (simp_all add: validPdu_def)
  from assms obtain cid where cid: "getUint32 p 4 False = Inr cid" "cid \<in> set knownCommandIds"
    by (auto simp: validPdu_def split: sum.splits)
  have a: "getUint32 (pre @ p @ post) (length pre + 4) False = Inr cid"
    using len cid by (simp add: getUint32_append_right getUint32_append_left)
  have b: "getUint32 (pre @ p @ post) (length pre) False = Inr (length p)"
    using len cl getUint32_append_right [of pre "p @ post" 0 False]
    by (simp add: getUint32_append_left)
  show ?thesis
    by (simp add: scanStep_def a b cid len slice_buffer_middle parse cong: bind_weak_cong)
qed

lemma scanStep_no_match:
  assumes "off + 16 \<le> length buf" and "\<not> heuristicsMatch buf off"
  shows "scanStep td buf off = Inr (None, off + 1)"
proof -
  from assms(1) obtain cid where cid: "getUint32 buf (off + 4) False = Inr cid"
    using getUint32_total [of "off + 4" buf False] by auto
  from assms(1) obtain n where n: "getUint32 buf off False = Inr n"
    using getUint32_total [of off buf False] by auto
  from assms(2) cid n have "\<not> (cid \<in> set knownCommandIds \<and> 16 \<le> n \<and> off + n \<le> length buf)"
    by (simp add: heuristicsMatch_def)
  then show ?thesis
    by (auto simp: scanStep_def cid n)
qed

lemma scanLoop_skips_garbage:
  assumes "16 \<le> length p" and "\<forall>i<length g. \<not> heuristicsMatch (g @ p) i"
  shows "i \<le> length g \<Longrightarrow> scanLoop td (g @ p) i acc = scanLoop td (g @ p) (length g) acc"
proof (induction "length g - i" arbitrary: i)
  case 0
  then show ?case by simp
next
  case (Suc k)
  then have lt: "i < length g" by simp
  with assms have s: "scanStep td (g @ p) i = Inr (None, i + 1)"
    by (intro scanStep_no_match) auto
  from lt assms(1) have "i + 16 \<le> length (g @ p)" by simp
  then have "scanLoop td (g @ p) i acc = scanLoop td (g @ p) (i + 1) acc"
    by (simp add: scanLoop_more s)
  also have "\<dots> = scanLoop td (g @ p) (length g) acc"
    using Suc lt by (intro Suc.hyps(1)) auto
  finally show ?case .
qed

lemma scanLoop_accepts_valid:
  assumes "validPdu td p r"
  shows "scanLoop td (pre @ p @ post) (length pre) acc =
         scanLoop td (pre @ p @ post) (length pre + length p) (acc @ [r])"
proof -
  from assms have "16 \<le> length p" by (simp add: validPdu_def)
  then have "length pre + 16 \<le> length (pre @ p @ post)" by simp
  then show ?thesis
    by (simp add: scanLoop_more scanStep_valid [OF assms])
qed

lemma parseSmppPdu_header_fields:
  assumes "16 \<le> length p" and "parseSmppPdu td p = Inr r"
  shows "getUint32 p 0 False = Inr (command_length (header r)) \<and>
         getUint32 p 4 False = Inr (command_id (header r)) \<and>
         getUint32 p 8 False = Inr (command_status (header r)) \<and>
         getUint32 p 12 False = Inr (sequence_no (header r))"
proof -
  from assms(1) obtain cl where cl: "getUint32 p 0 False = Inr cl"
    using getUint32_total [of 0 p False] by auto
  from assms(1) obtain cid where cid: "getUint32 p 4 False = Inr cid"
    using getUint32_total [of 4 p False] by auto
  from assms(1) obtain cs where cs: "getUint32 p 8 False = Inr cs"
    using getUint32_total [of 8 p False] by auto
  from assms(1) obtain sn where sn: "getUint32 p 12 False = Inr sn"
    using getUint32_total [of 12 p False] by auto
  from assms(2) show ?thesis
    by (auto simp: parseSmppPdu_def readUint32_def cl cid cs sn Let_def bind_eq_Inr
          cong: bind_weak_cong split del: if_split)
qed

text \<open>
  C2. For two valid PDUs written back to back, \<open>parseMultipleSmppPdus\<close> returns exactly
  the two decoded PDUs in order, each carrying the header of its own piece. For one valid
  PDU behind garbage bytes at none of whose offsets the heuristics match, it returns
  exactly the one decoded PDU.
\<close>

theorem scanner_yields_exactly_the_valid_pdus:
  assumes v1: "validPdu td pdu1 parsed1"
    and v2: "validPdu td pdu2 parsed2"
    and g: "\<forall>i<length garbage. \<not> heuristicsMatch (garbage @ pdu1) i"
  shows "parseMultipleSmppPdus td (pdu1 @ pdu2) = Inr [parsed1, parsed2]
         \<and> carriesHeaderOf parsed1 pdu1 \<and> carriesHeaderOf parsed2 pdu2
         \<and> parseMultipleSmppPdus td (garbage @ pdu1) = Inr [parsed1]"
proof -
  from v1 have l1: "16 \<le> length pdu1" and p1: "parseSmppPdu td pdu1 = Inr parsed1"
    and c1: "getUint32 pdu1 0 False = Inr (length pdu1)"
    by (simp_all add: validPdu_def)
  from v2 have l2: "16 \<le> length pdu2" and p2: "parseSmppPdu td pdu2 = Inr parsed2"
    and c2: "getUint32 pdu2 0 False = Inr (length pdu2)"
    by (simp_all add: validPdu_def)
  have "scanLoop td (pdu1 @ pdu2) 0 [] = scanLoop td (pdu1 @ pdu2) (length pdu1) [parsed1]"
    using scanLoop_accepts_valid [OF v1, of "[]" pdu2 "[]"] by simp
  also have "\<dots> = scanLoop td (pdu1 @ pdu2) (length pdu1 + length pdu2) [parsed1, parsed2]"
    using scanLoop_accepts_valid [OF v2, of pdu1 "[]" "[parsed1]"] by simp
  also have "\<dots> = Inr [parsed1, parsed2]"
    by (simp add: scanLoop_done)
  finally have two: "parseMultipleSmppPdus td (pdu1 @ pdu2) = Inr [parsed1, parsed2]"
    by (simp add: parseMultipleSmppPdus_def)
  have "scanLoop td (garbage @ pdu1) 0 [] = scanLoop td (garbage @ pdu1) (length garbage) []"
    using scanLoop_skips_garbage [OF l1 g, of 0 td "[]"] by simp
  also have "\<dots> = scanLoop td (garbage @ pdu1) (length garbage + length pdu1) [parsed1]"
    using scanLoop_accepts_valid [OF v1, of garbage "[]" "[]"] by simp
  also have "\<dots> = Inr [parsed1]"
    by (simp add: scanLoop_done)
  finally have one: "parseMultipleSmppPdus td (garbage @ pdu1) = Inr [parsed1]"
    by (simp add: parseMultipleSmppPdus_def)
  from parseSmppPdu_header_fields [OF l1 p1] c1
  have h1: "carriesHeaderOf parsed1 pdu1" by (simp add: carriesHeaderOf_def)
  from parseSmppPdu_header_fields [OF l2 p2] c2
  have h2: "carriesHeaderOf parsed2 pdu2" by (simp add: carriesHeaderOf_def)
  from two one h1 h2 show ?thesis by simp
qed

theorem scanner_yields_exactly_the_valid_pdus_witness:
  "validPdu TextDecoder_decode [0, 0, 0, 16, 0, 0, 0, 4, 0, 0, 0, 0, 0, 0, 0, 1]
     \<lparr>header = \<lparr>command_length = 16, command_id = 4, command_name = ''enquire_link'',
                  command_status = 0, sequence_no = 1\<rparr>,
      body = Unsupported ''Parser for enquire_link (0x4) is not implemented.'' ''No body''\<rparr>
   \<and> validPdu TextDecoder_decode [0, 0, 0, 17, 128, 0, 0, 2, 0, 0, 0, 0, 0, 0, 0, 2, 0]
     \<lparr>header = \<lparr>command_length = 17, command_id = 0x80000002,
                  command_name = ''deliver_sm_resp'', command_status = 0, sequence_no = 2\<rparr>,
      body = Unsupported ''Parser for deliver_sm_resp (0x80000002) is not implemented.'' ''00''\<rparr>
   \<and> \<not> heuristicsMatch ([0xDE, 0xAD, 0xBE] @ [0, 0, 0, 16, 0, 0, 0, 4, 0, 0, 0, 0, 0, 0, 0, 1]) 0
   \<and> \<not> heuristicsMatch ([0xDE, 0xAD, 0xBE] @ [0, 0, 0, 16, 0, 0, 0, 4, 0, 0, 0, 0, 0, 0, 0, 1]) 1
   \<and> \<not> heuristicsMatch ([0xDE, 0xAD, 0xBE] @ [0, 0, 0, 16, 0, 0, 0, 4, 0, 0, 0, 0, 0, 0, 0, 1]) 2
   \<and> parseMultipleSmppPdus TextDecoder_decode ([0, 0, 0, 16, 0, 0, 0, 4, 0, 0, 0, 0, 0, 0, 0, 1] @ [0, 0, 0, 17, 128, 0, 0, 2, 0, 0, 0, 0, 0, 0, 0, 2, 0]) =
       Inr [\<lparr>header = \<lparr>command_length = 16, command_id = 4, command_name = ''enquire_link'',
                  command_status = 0, sequence_no = 1\<rparr>,
      body = Unsupported ''Parser for enquire_link (0x4) is not implemented.'' ''No body''\<rparr>,
            \<lparr>header = \<lparr>command_length = 17, command_id = 0x80000002,
                  command_name = ''deliver_sm_resp'', command_status = 0, sequence_no = 2\<rparr>,
      body = Unsupported ''Parser for deliver_sm_resp (0x80000002) is not implemented.'' ''00''\<rparr>]
   \<and> parseMultipleSmppPdus TextDecoder_decode ([0xDE, 0xAD, 0xBE] @ [0, 0, 0, 16, 0, 0, 0, 4, 0, 0, 0, 0, 0, 0, 0, 1]) =
       Inr [\<lparr>header = \<lparr>command_length = 16, command_id = 4, command_name = ''enquire_link'',
                  command_status = 0, sequence_no = 1\<rparr>,
      body = Unsupported ''Parser for enquire_link (0x4) is not implemented.'' ''No body''\<rparr>]"
proof -
  have h1: "validPdu TextDecoder_decode [0, 0, 0, 16, 0, 0, 0, 4, 0, 0, 0, 0, 0, 0, 0, 1]
     \<lparr>header = \<lparr>command_length = 16, command_id = 4, command_name = ''enquire_link'',
                  command_status = 0, sequence_no = 1\<rparr>,
      body = Unsupported ''Parser for enquire_link (0x4) is not implemented.'' ''No body''\<rparr>"
    unfolding validPdu_def
    by (simp add: eval_rules cong: bind_weak_cong let_weak_cong split del: if_split)
  have h2: "validPdu TextDecoder_decode [0, 0, 0, 17, 128, 0, 0, 2, 0, 0, 0, 0, 0, 0, 0, 2, 0]
     \<lparr>header = \<lparr>command_length = 17, command_id = 0x80000002,
                  command_name = ''deliver_sm_resp'', command_status = 0, sequence_no = 2\<rparr>,
      body = Unsupported ''Parser for deliver_sm_resp (0x80000002) is not implemented.'' ''00''\<rparr>"
    unfolding validPdu_def
    by (simp add: eval_rules cong: bind_weak_cong let_weak_cong split del: if_split)
  have n0: "\<not> heuristicsMatch ([0xDE, 0xAD, 0xBE] @ [0, 0, 0, 16, 0, 0, 0, 4, 0, 0, 0, 0, 0, 0, 0, 1]) 0"
    by (simp add: heuristicsMatch_def getUint32_def knownCommandIds_def COMMAND_ID_MAP_def)
  have n1: "\<not> heuristicsMatch ([0xDE, 0xAD, 0xBE] @ [0, 0, 0, 16, 0, 0, 0, 4, 0, 0, 0, 0, 0, 0, 0, 1]) 1"
    by (simp add: heuristicsMatch_def getUint32_def knownCommandIds_def COMMAND_ID_MAP_def)
  have n2: "\<not> heuristicsMatch ([0xDE, 0xAD, 0xBE] @ [0, 0, 0, 16, 0, 0, 0, 4, 0, 0, 0, 0, 0, 0, 0, 1]) 2"
    by (simp add: heuristicsMatch_def getUint32_def knownCommandIds_def COMMAND_ID_MAP_def)
  from n0 n1 n2
  have h3: "\<forall>i<length [0xDE, 0xAD, 0xBE :: byte]. \<not> heuristicsMatch ([0xDE, 0xAD, 0xBE] @ [0, 0, 0, 16, 0, 0, 0, 4, 0, 0, 0, 0, 0, 0, 0, 1]) i"
    by (simp add: All_less_Suc numeral_2_eq_2)
  from scanner_yields_exactly_the_valid_pdus [OF h1 h2 h3] h1 h2 n0 n1 n2
  show ?thesis by simp
qed

section \<open>A payload of exactly one header\<close>

lemma stripFrame_forwards_longer_than_16:
  assumes "stripFrame buf packetStart incl_len packetIndex = Inr (Some p)"
  shows "16 < length_pkt p"
  using assms
  by (auto simp: stripFrame_def Let_def bind_eq_Inr split: if_splits)

text \<open>
  C1, as stated, fails. The capture holds one Ethernet-II/IPv4/TCP frame from
  10.0.0.1:2775 to 10.0.0.2:9999 whose TCP payload is the 16-byte enquire_link PDU with
  sequence number 1. The frame stripper computes a payload length of 16, its test
  \<open>payloadLength > 16\<close> fails and the record is not forwarded: no packet is listed and
  no PDU is decoded.
\<close>

theorem sixteen_byte_payload_is_not_forwarded:
  "extractAllTcpPayloads [161, 178, 195, 212, 0, 0, 0, 0, 0, 0, 0, 0, 0, 0, 0, 0, 0, 0, 0, 0, 0, 0, 0, 0, 0, 0, 0, 0, 0, 0, 0, 0, 0, 0, 0, 70, 0, 0, 0, 70, 0, 0, 0, 0, 0, 0, 0, 0, 0, 0, 0, 0, 8, 0, 69, 0, 0, 0, 0, 0, 0, 0, 64, 6, 0, 0, 10, 0, 0, 1, 10, 0, 0, 2, 10, 215, 39, 15, 0, 0, 0, 0, 0, 0, 0, 0, 80, 0, 0, 0, 0, 0, 0, 0, 0, 0, 0, 16, 0, 0, 0, 4, 0, 0, 0, 0, 0, 0, 0, 1] = Inr []
   \<and> decodeCapture TextDecoder_decode [161, 178, 195, 212, 0, 0, 0, 0, 0, 0, 0, 0, 0, 0, 0, 0, 0, 0, 0, 0, 0, 0, 0, 0, 0, 0, 0, 0, 0, 0, 0, 0, 0, 0, 0, 70, 0, 0, 0, 70, 0, 0, 0, 0, 0, 0, 0, 0, 0, 0, 0, 0, 8, 0, 69, 0, 0, 0, 0, 0, 0, 0, 64, 6, 0, 0, 10, 0, 0, 1, 10, 0, 0, 2, 10, 215, 39, 15, 0, 0, 0, 0, 0, 0, 0, 0, 80, 0, 0, 0, 0, 0, 0, 0, 0, 0, 0, 16, 0, 0, 0, 4, 0, 0, 0, 0, 0, 0, 0, 1] = Inr []
   \<and> stripFrame [161, 178, 195, 212, 0, 0, 0, 0, 0, 0, 0, 0, 0, 0, 0, 0, 0, 0, 0, 0, 0, 0, 0, 0, 0, 0, 0, 0, 0, 0, 0, 0, 0, 0, 0, 70, 0, 0, 0, 70, 0, 0, 0, 0, 0, 0, 0, 0, 0, 0, 0, 0, 8, 0, 69, 0, 0, 0, 0, 0, 0, 0, 64, 6, 0, 0, 10, 0, 0, 1, 10, 0, 0, 2, 10, 215, 39, 15, 0, 0, 0, 0, 0, 0, 0, 0, 80, 0, 0, 0, 0, 0, 0, 0, 0, 0, 0, 16, 0, 0, 0, 4, 0, 0, 0, 0, 0, 0, 0, 1] 40 70 0 = Inr None"
  by (simp add: eval_rules decodeCapture_def cong: bind_weak_cong let_weak_cong
        split del: if_split)

text \<open>
  C1, amended. For that capture the pipeline yields no PDU, because the frame stripper
  forwards a payload only when it is longer than 16 bytes. The payload itself, the bytes
  94 to 109 of the capture, goes through the boundary scanner and the decoder to exactly
  one PDU, whose command name is "enquire_link" and whose body is the unsupported-command
  body with no body bytes (\<open>raw_body\<close> is the placeholder "No body"), whatever the
  platform's decoder does.
\<close>

theorem sixteen_byte_enquire_link_is_decoded_but_not_forwarded:
  "decodeCapture td [161, 178, 195, 212, 0, 0, 0, 0, 0, 0, 0, 0, 0, 0, 0, 0, 0, 0, 0, 0, 0, 0, 0, 0, 0, 0, 0, 0, 0, 0, 0, 0, 0, 0, 0, 70, 0, 0, 0, 70, 0, 0, 0, 0, 0, 0, 0, 0, 0, 0, 0, 0, 8, 0, 69, 0, 0, 0, 0, 0, 0, 0, 64, 6, 0, 0, 10, 0, 0, 1, 10, 0, 0, 2, 10, 215, 39, 15, 0, 0, 0, 0, 0, 0, 0, 0, 80, 0, 0, 0, 0, 0, 0, 0, 0, 0, 0, 16, 0, 0, 0, 4, 0, 0, 0, 0, 0, 0, 0, 1] = Inr []
   \<and> slice_buffer [161, 178, 195, 212, 0, 0, 0, 0, 0, 0, 0, 0, 0, 0, 0, 0, 0, 0, 0, 0, 0, 0, 0, 0, 0, 0, 0, 0, 0, 0, 0, 0, 0, 0, 0, 70, 0, 0, 0, 70, 0, 0, 0, 0, 0, 0, 0, 0, 0, 0, 0, 0, 8, 0, 69, 0, 0, 0, 0, 0, 0, 0, 64, 6, 0, 0, 10, 0, 0, 1, 10, 0, 0, 2, 10, 215, 39, 15, 0, 0, 0, 0, 0, 0, 0, 0, 80, 0, 0, 0, 0, 0, 0, 0, 0, 0, 0, 16, 0, 0, 0, 4, 0, 0, 0, 0, 0, 0, 0, 1] 94 110 = [0, 0, 0, 16, 0, 0, 0, 4, 0, 0, 0, 0, 0, 0, 0, 1]
   \<and> parseMultipleSmppPdus td [0, 0, 0, 16, 0, 0, 0, 4, 0, 0, 0, 0, 0, 0, 0, 1] =
       Inr [\<lparr>header = \<lparr>command_length = 16, command_id = 4, command_name = ''enquire_link'',
                     command_status = 0, sequence_no = 1\<rparr>,
            body = Unsupported ''Parser for enquire_link (0x4) is not implemented.'' ''No body''\<rparr>]
   \<and> (stripFrame buf packetStart incl_len packetIndex = Inr (Some p) \<longrightarrow> 16 < length_pkt p)"
proof (intro conjI impI)
  show "decodeCapture td [161, 178, 195, 212, 0, 0, 0, 0, 0, 0, 0, 0, 0, 0, 0, 0, 0, 0, 0, 0, 0, 0, 0, 0, 0, 0, 0, 0, 0, 0, 0, 0, 0, 0, 0, 70, 0, 0, 0, 70, 0, 0, 0, 0, 0, 0, 0, 0, 0, 0, 0, 0, 8, 0, 69, 0, 0, 0, 0, 0, 0, 0, 64, 6, 0, 0, 10, 0, 0, 1, 10, 0, 0, 2, 10, 215, 39, 15, 0, 0, 0, 0, 0, 0, 0, 0, 80, 0, 0, 0, 0, 0, 0, 0, 0, 0, 0, 16, 0, 0, 0, 4, 0, 0, 0, 0, 0, 0, 0, 1] = Inr []"
    by (simp add: eval_rules decodeCapture_def cong: bind_weak_cong let_weak_cong
          split del: if_split)
  show "slice_buffer [161, 178, 195, 212, 0, 0, 0, 0, 0, 0, 0, 0, 0, 0, 0, 0, 0, 0, 0, 0, 0, 0, 0, 0, 0, 0, 0, 0, 0, 0, 0, 0, 0, 0, 0, 70, 0, 0, 0, 70, 0, 0, 0, 0, 0, 0, 0, 0, 0, 0, 0, 0, 8, 0, 69, 0, 0, 0, 0, 0, 0, 0, 64, 6, 0, 0, 10, 0, 0, 1, 10, 0, 0, 2, 10, 215, 39, 15, 0, 0, 0, 0, 0, 0, 0, 0, 80, 0, 0, 0, 0, 0, 0, 0, 0, 0, 0, 16, 0, 0, 0, 4, 0, 0, 0, 0, 0, 0, 0, 1] 94 110 = [0, 0, 0, 16, 0, 0, 0, 4, 0, 0, 0, 0, 0, 0, 0, 1]"
    by (simp add: slice_buffer_def)
  show "parseMultipleSmppPdus td [0, 0, 0, 16, 0, 0, 0, 4, 0, 0, 0, 0, 0, 0, 0, 1] =
       Inr [\<lparr>header = \<lparr>command_length = 16, command_id = 4, command_name = ''enquire_link'',
                     command_status = 0, sequence_no = 1\<rparr>,
            body = Unsupported ''Parser for enquire_link (0x4) is not implemented.'' ''No body''\<rparr>]"
    by (simp add: eval_rules cong: bind_weak_cong let_weak_cong split del: if_split)
  show "16 < length_pkt p" if "stripFrame buf packetStart incl_len packetIndex = Inr (Some p)"
    using that by (rule stripFrame_forwards_longer_than_16)
qed

theorem sixteen_byte_enquire_link_is_decoded_but_not_forwarded_witness:
  "stripFrame [161, 178, 195, 212, 0, 0, 0, 0, 0, 0, 0, 0, 0, 0, 0, 0, 0, 0, 0, 0, 0, 0, 0, 0, 0, 0, 0, 0, 0, 0, 0, 0, 0, 0, 0, 71, 0, 0, 0, 71, 0, 0, 0, 0, 0, 0, 0, 0, 0, 0, 0, 0, 8, 0, 69, 0, 0, 0, 0, 0, 0, 0, 64, 6, 0, 0, 10, 0, 0, 1, 10, 0, 0, 2, 10, 215, 39, 15, 0, 0, 0, 0, 0, 0, 0, 0, 80, 0, 0, 0, 0, 0, 0, 0, 0, 0, 0, 16, 0, 0, 0, 4, 0, 0, 0, 0, 0, 0, 0, 1, 0] 40 71 0 =
     Inr (Some \<lparr>index = 1, sourceIp = ''10.0.0.1'', destIp = ''10.0.0.2'', sourcePort = 2775,
        destPort = 9999, length_pkt = 17, info = ''enquire_link (Multiple)'',
        payload = [0, 0, 0, 16, 0, 0, 0, 4, 0, 0, 0, 0, 0, 0, 0, 1, 0]\<rparr>)
   \<and> 16 < length_pkt \<lparr>index = 1, sourceIp = ''10.0.0.1'', destIp = ''10.0.0.2'', sourcePort = 2775,
        destPort = 9999, length_pkt = 17, info = ''enquire_link (Multiple)'',
        payload = [0, 0, 0, 16, 0, 0, 0, 4, 0, 0, 0, 0, 0, 0, 0, 1, 0]\<rparr>
   \<and> decodeCapture TextDecoder_decode [161, 178, 195, 212, 0, 0, 0, 0, 0, 0, 0, 0, 0, 0, 0, 0, 0, 0, 0, 0, 0, 0, 0, 0, 0, 0, 0, 0, 0, 0, 0, 0, 0, 0, 0, 71, 0, 0, 0, 71, 0, 0, 0, 0, 0, 0, 0, 0, 0, 0, 0, 0, 8, 0, 69, 0, 0, 0, 0, 0, 0, 0, 64, 6, 0, 0, 10, 0, 0, 1, 10, 0, 0, 2, 10, 215, 39, 15, 0, 0, 0, 0, 0, 0, 0, 0, 80, 0, 0, 0, 0, 0, 0, 0, 0, 0, 0, 16, 0, 0, 0, 4, 0, 0, 0, 0, 0, 0, 0, 1, 0] =
       Inr [\<lparr>header = \<lparr>command_length = 16, command_id = 4, command_name = ''enquire_link'',
                     command_status = 0, sequence_no = 1\<rparr>,
            body = Unsupported ''Parser for enquire_link (0x4) is not implemented.'' ''No body''\<rparr>]
   \<and> decodeCapture TextDecoder_decode [161, 178, 195, 212, 0, 0, 0, 0, 0, 0, 0, 0, 0, 0, 0, 0, 0, 0, 0, 0, 0, 0, 0, 0, 0, 0, 0, 0, 0, 0, 0, 0, 0, 0, 0, 70, 0, 0, 0, 70, 0, 0, 0, 0, 0, 0, 0, 0, 0, 0, 0, 0, 8, 0, 69, 0, 0, 0, 0, 0, 0, 0, 64, 6, 0, 0, 10, 0, 0, 1, 10, 0, 0, 2, 10, 215, 39, 15, 0, 0, 0, 0, 0, 0, 0, 0, 80, 0, 0, 0, 0, 0, 0, 0, 0, 0, 0, 16, 0, 0, 0, 4, 0, 0, 0, 0, 0, 0, 0, 1] = Inr []"
proof -
  have h: "stripFrame [161, 178, 195, 212, 0, 0, 0, 0, 0, 0, 0, 0, 0, 0, 0, 0, 0, 0, 0, 0, 0, 0, 0, 0, 0, 0, 0, 0, 0, 0, 0, 0, 0, 0, 0, 71, 0, 0, 0, 71, 0, 0, 0, 0, 0, 0, 0, 0, 0, 0, 0, 0, 8, 0, 69, 0, 0, 0, 0, 0, 0, 0, 64, 6, 0, 0, 10, 0, 0, 1, 10, 0, 0, 2, 10, 215, 39, 15, 0, 0, 0, 0, 0, 0, 0, 0, 80, 0, 0, 0, 0, 0, 0, 0, 0, 0, 0, 16, 0, 0, 0, 4, 0, 0, 0, 0, 0, 0, 0, 1, 0] 40 71 0 =
     Inr (Some \<lparr>index = 1, sourceIp = ''10.0.0.1'', destIp = ''10.0.0.2'', sourcePort = 2775,
        destPort = 9999, length_pkt = 17, info = ''enquire_link (Multiple)'',
        payload = [0, 0, 0, 16, 0, 0, 0, 4, 0, 0, 0, 0, 0, 0, 0, 1, 0]\<rparr>)"
    by (simp add: eval_rules cong: bind_weak_cong let_weak_cong split del: if_split)
  have run: "decodeCapture TextDecoder_decode [161, 178, 195, 212, 0, 0, 0, 0, 0, 0, 0, 0, 0, 0, 0, 0, 0, 0, 0, 0, 0, 0, 0, 0, 0, 0, 0, 0, 0, 0, 0, 0, 0, 0, 0, 71, 0, 0, 0, 71, 0, 0, 0, 0, 0, 0, 0, 0, 0, 0, 0, 0, 8, 0, 69, 0, 0, 0, 0, 0, 0, 0, 64, 6, 0, 0, 10, 0, 0, 1, 10, 0, 0, 2, 10, 215, 39, 15, 0, 0, 0, 0, 0, 0, 0, 0, 80, 0, 0, 0, 0, 0, 0, 0, 0, 0, 0, 16, 0, 0, 0, 4, 0, 0, 0, 0, 0, 0, 0, 1, 0] =
       Inr [\<lparr>header = \<lparr>command_length = 16, command_id = 4, command_name = ''enquire_link'',
                     command_status = 0, sequence_no = 1\<rparr>,
            body = Unsupported ''Parser for enquire_link (0x4) is not implemented.'' ''No body''\<rparr>]"
    by (simp add: eval_rules decodeCapture_def cong: bind_weak_cong let_weak_cong
          split del: if_split)
  from sixteen_byte_enquire_link_is_decoded_but_not_forwarded
         [of TextDecoder_decode "[161, 178, 195, 212, 0, 0, 0, 0, 0, 0, 0, 0, 0, 0, 0, 0, 0, 0, 0, 0, 0, 0, 0, 0, 0, 0, 0, 0, 0, 0, 0, 0, 0, 0, 0, 71, 0, 0, 0, 71, 0, 0, 0, 0, 0, 0, 0, 0, 0, 0, 0, 0, 8, 0, 69, 0, 0, 0, 0, 0, 0, 0, 64, 6, 0, 0, 10, 0, 0, 1, 10, 0, 0, 2, 10, 215, 39, 15, 0, 0, 0, 0, 0, 0, 0, 0, 80, 0, 0, 0, 0, 0, 0, 0, 0, 0, 0, 16, 0, 0, 0, 4, 0, 0, 0, 0, 0, 0, 0, 1, 0]" 40 71 0 "\<lparr>index = 1, sourceIp = ''10.0.0.1'', destIp = ''10.0.0.2'', sourcePort = 2775,
        destPort = 9999, length_pkt = 17, info = ''enquire_link (Multiple)'',
        payload = [0, 0, 0, 16, 0, 0, 0, 4, 0, 0, 0, 0, 0, 0, 0, 1, 0]\<rparr>"] h run
  show ?thesis by simp
qed

section \<open>Runs on which the code departs from its description\<close>

text \<open>
  C3. The capture holds one record of 15 bytes: an Ethernet header with EtherType 0x0800
  and the first byte of an IPv4 header. The record passes the only length test of the
  frame stripper (more than 14 bytes), and the read of the protocol byte at offset 9 of
  the IPv4 header lies past the end of the capture: the RangeError of that read leaves
  \<open>extractAllTcpPayloads\<close>. When another record follows the same 15 bytes, the same
  read takes a byte of the next record's header and the record is skipped.
\<close>

theorem short_ipv4_record_raises:
  "extractAllTcpPayloads [161, 178, 195, 212, 0, 0, 0, 0, 0, 0, 0, 0, 0, 0, 0, 0, 0, 0, 0, 0, 0, 0, 0, 0, 0, 0, 0, 0, 0, 0, 0, 0, 0, 0, 0, 15, 0, 0, 0, 15, 0, 0, 0, 0, 0, 0, 0, 0, 0, 0, 0, 0, 8, 0, 69] =
     Inl (RangeError ''Offset is outside the bounds of the DataView'')
   \<and> stripFrame [161, 178, 195, 212, 0, 0, 0, 0, 0, 0, 0, 0, 0, 0, 0, 0, 0, 0, 0, 0, 0, 0, 0, 0, 0, 0, 0, 0, 0, 0, 0, 0, 0, 0, 0, 15, 0, 0, 0, 15, 0, 0, 0, 0, 0, 0, 0, 0, 0, 0, 0, 0, 8, 0, 69] 40 15 0 =
     Inl (RangeError ''Offset is outside the bounds of the DataView'')
   \<and> stripFrame [161, 178, 195, 212, 0, 0, 0, 0, 0, 0, 0, 0, 0, 0, 0, 0, 0, 0, 0, 0, 0, 0, 0, 0, 0, 0, 0, 0, 0, 0, 0, 0, 0, 0, 0, 15, 0, 0, 0, 15, 0, 0, 0, 0, 0, 0, 0, 0, 0, 0, 0, 0, 8, 0, 69, 0, 0, 0, 0, 0, 0, 0, 0, 0, 0, 0, 71, 0, 0, 0, 71, 0, 0, 0, 0, 0, 0, 0, 0, 0, 0, 0, 0, 8, 0, 69, 0, 0, 0, 0, 0, 0, 0, 64, 6, 0, 0, 10, 0, 0, 1, 10, 0, 0, 2, 10, 215, 39, 15, 0, 0, 0, 0, 0, 0, 0, 0, 80, 0, 0, 0, 0, 0, 0, 0, 0, 0, 0, 16, 0, 0, 0, 4, 0, 0, 0, 0, 0, 0, 0, 1, 0] 40 15 0 = Inr None"
  by (simp add: eval_rules cong: bind_weak_cong let_weak_cong split del: if_split)

text \<open>
  The value of a TLV is kept as its \<open>bufferToHex\<close> string and turned back into bytes
  for the message_payload tag. For a value of at least one byte the way back returns the
  value, so that one iteration of the TLV loop on a message_payload TLV replaces the
  message content by the TLV's value bytes.
\<close>

lemma less_16_cases:
  "(d::nat) < 16 \<Longrightarrow> d = 0 \<or> d = 1 \<or> d = 2 \<or> d = 3 \<or> d = 4 \<or> d = 5 \<or> d = 6 \<or> d = 7 \<or>
     d = 8 \<or> d = 9 \<or> d = 10 \<or> d = 11 \<or> d = 12 \<or> d = 13 \<or> d = 14 \<or> d = 15"
  by arith

lemma hexDigitValue_digitChar: "d < 16 \<Longrightarrow> hexDigitValue (digitChar d) = Some d"
  by (drule less_16_cases) (auto simp: digitChar_def hexDigitValue_def)

lemma digitChar_not_space: "d < 16 \<Longrightarrow> digitChar d \<noteq> CHR '' ''"
  by (drule less_16_cases) (auto simp: digitChar_def)

lemma hex_of_byte:
  fixes b :: byte
  shows "padStart 2 CHR ''0'' (toString16 (unat b)) =
         [digitChar (unat b div 16), digitChar (unat b mod 16)]"
proof (cases "unat b < 16")
  case True
  then show ?thesis
    by (simp add: toString16_small padStart_def digitChar_def)
next
  case False
  have "unat b < 256" using unsigned_less [of b, where ?'a = nat] by simp
  then have "unat b div 16 < 16" by simp
  with False show ?thesis
    by (simp add: toString16_big toString16_small padStart_def)
qed

lemma parseInt16_two_digits:
  assumes "a < 16" and "b < 16"
  shows "parseInt16 [digitChar a, digitChar b] = Some (16 * a + b)"
  using assms by (simp add: parseInt16_def hexDigitValue_digitChar)

lemma split_without_separator: "c \<notin> set w \<Longrightarrow> split c w = [w]"
  by (induction w) auto

lemma split_at_separator: "c \<notin> set w \<Longrightarrow> split c (w @ c # rest) = w # split c rest"
  by (induction w) auto

lemma split_join:
  assumes "ws \<noteq> []" and "\<forall>w\<in>set ws. CHR '' '' \<notin> set w"
  shows "split CHR '' '' (join '' '' ws) = ws"
  using assms
proof (induction ws rule: induct_list012)
  case 1
  then show ?case by simp
next
  case (2 w)
  then show ?case by (simp add: split_without_separator)
next
  case (3 w v ws)
  then show ?case by (simp add: split_at_separator)
qed

lemma hexToBytes_bufferToHex:
  assumes "bs \<noteq> []"
  shows "hexToBytes (bufferToHex bs) = bs"
proof -
  let ?hex = "\<lambda>b::byte. padStart 2 CHR ''0'' (toString16 (unat b))"
  have lt: "unat b div 16 < 16" "unat b mod 16 < 16" for b :: byte
    using unsigned_less [of b, where ?'a = nat] by simp_all
  have nosp: "\<forall>w\<in>set (map ?hex bs). CHR '' '' \<notin> set w"
  proof
    fix w
    assume "w \<in> set (map ?hex bs)"
    then obtain b :: byte where w: "w = [digitChar (unat b div 16), digitChar (unat b mod 16)]"
      by (auto simp: hex_of_byte)
    have "digitChar (unat b div 16) \<noteq> CHR '' ''" "digitChar (unat b mod 16) \<noteq> CHR '' ''"
      by (rule digitChar_not_space, rule lt)+
    with w show "CHR '' '' \<notin> set w" by auto
  qed
  have rt: "toUint8 (parseInt16 (?hex b)) = b" for b :: byte
    by (simp add: hex_of_byte parseInt16_two_digits lt toUint8_def)
  have "hexToBytes (bufferToHex bs) = map (\<lambda>s. toUint8 (parseInt16 s)) (map ?hex bs)"
    using assms nosp by (simp add: hexToBytes_def bufferToHex_def split_join)
  also have "\<dots> = bs"
    by (simp add: rt o_def map_idI)
  finally show ?thesis .
qed

lemma message_payload_supersedes:
  assumes rem: "bytesRemaining r > 0"
    and tlv: "readTlv r = Inr (Some t, r')"
    and tg: "tag t = TagNumber 0x0424"
    and len: "length_tlv t > 0"
  shows "readTlvs r ts message_content =
         readTlvs r' (ts @ [t]) (Some (take (length_tlv t) (drop (offset r + 4) (view r))))"
proof -
  from tlv have v: "value_tlv t = bufferToHex (take (length_tlv t) (drop (offset r + 4) (view r)))"
    and fit: "offset r + 4 + length_tlv t \<le> length (view r)"
    by (auto simp: readTlv_def readBytes_def newUint8Array_def bind_eq_Inr split: if_splits)
  from fit len have "take (length_tlv t) (drop (offset r + 4) (view r)) \<noteq> []"
    by auto
  then have "hexToBytes (value_tlv t) = take (length_tlv t) (drop (offset r + 4) (view r))"
    by (simp add: v hexToBytes_bufferToHex)
  with rem tlv tg show ?thesis
    by (simp add: readTlvs_more)
qed

text \<open>
  C6. The deliver_sm PDU has the short message "A" and a message_payload TLV (tag 0x0424)
  of length 0, under data coding 0xFF. The TLV value goes through \<open>bufferToHex\<close> and back
  through \<open>split\<close> and \<open>parseInt\<close>, and the empty value comes back as the single byte 0:
  the decoded message is the dump of one zero byte, which is neither the rendering of the
  TLV's value (no bytes) nor that of the short message.
\<close>

theorem empty_message_payload_renders_a_zero_byte:
  "(\<exists>h b. parseSmppPdu TextDecoder_decode [0, 0, 0, 35, 0, 0, 0, 2, 0, 0, 0, 0, 0, 0, 0, 1, 0, 1, 1, 0, 1, 1, 0, 0, 0, 0, 0, 255, 0, 1, 65, 4, 36, 0, 0] = Inr \<lparr>header = h, body = DeliverSm b\<rparr>
      \<and> short_message b = Some ''41''
      \<and> tlvs b = Some [\<lparr>tag = TagString ''0x0424'', length_tlv = 0, value_tlv = []\<rparr>]
      \<and> decoded_message b = ''(Unknown (0xff)) [Binary Data: 00]'')
   \<and> hexToBytes (bufferToHex []) = [0]
   \<and> decodeMessage TextDecoder_decode [] 0xFF = ''(Unknown (0xff)) [Binary Data: ]''
   \<and> decodeMessage TextDecoder_decode [0x41] 0xFF = ''(Unknown (0xff)) [Binary Data: 41]''"
  by (simp add: eval_rules cong: bind_weak_cong let_weak_cong split del: if_split)

end
